theory Spec2Isabelle
  imports Complex_Main
begin

section \<open>The training notebook \<open>example_01_transformer_training.ipynb\<close>\<close>

text \<open>
  The notebook is glue code around PyTorch: a configuration cell, two data loaders, a loss
  criterion, a learning-rate scheduler, and one \<open>while\<close> loop that trains, evaluates and
  writes checkpoints. The model below follows the notebook cell by cell. What PyTorch, tqdm
  and the tokenizer supply (the forward pass, the per-token cross entropy, the optimizer
  update, \<open>scheduler.step()\<close>, greedy decoding, \<open>torch.save\<close>) is a parameter of the
  model, collected in the record \<open>env\<close>; each of them may raise, so each returns an
  exception or a result. Progress-bar calls and \<open>time.sleep\<close> have no effect on the
  state modelled here and are left out.
\<close>

subsection \<open>Exceptions and tensor scalars\<close>

datatype pyexn =
  StopIteration | ZeroDivisionError | ValueError | RuntimeError | OSError | KeyboardInterrupt

text \<open>
  A scalar of a floating-point tensor: a finite value (rounding is not modelled, finite
  values are reals) or one of the three special values of IEEE arithmetic.
\<close>

datatype tfloat = Val real | PInf | NInf | NaN

fun is_finite :: "tfloat \<Rightarrow> bool" where
  "is_finite (Val a) = True"
| "is_finite PInf = False"
| "is_finite NInf = False"
| "is_finite NaN = False"

text \<open>
  \<open>loss /= torch.sum(y_lens)\<close>: a floating-point tensor divided in place by an integer
  tensor. The division raises nothing; a zero divisor gives NaN for a zero dividend and an
  infinity of the dividend's sign otherwise.
\<close>

fun true_divide :: "tfloat \<Rightarrow> nat \<Rightarrow> tfloat" where
  "true_divide (Val a) n =
     (if n = 0 then (if a = 0 then NaN else if 0 < a then PInf else NInf)
      else Val (a / real n))"
| "true_divide PInf n = PInf"
| "true_divide NInf n = NInf"
| "true_divide NaN n = NaN"

fun tadd :: "tfloat \<Rightarrow> tfloat \<Rightarrow> tfloat" where
  "tadd (Val a) (Val b) = Val (a + b)"
| "tadd NaN b = NaN"
| "tadd a NaN = NaN"
| "tadd PInf NInf = NaN"
| "tadd NInf PInf = NaN"
| "tadd PInf b = PInf"
| "tadd a PInf = PInf"
| "tadd NInf b = NInf"
| "tadd a NInf = NInf"

text \<open>\<open>np.mean\<close> of a Python list of floats; the mean of the empty list is NaN.\<close>

definition np_mean :: "tfloat list \<Rightarrow> tfloat" where
  "np_mean ls = true_divide (foldl tadd (Val 0) ls) (length ls)"

subsection \<open>The configuration cell\<close>

record config =
  MAX_SEQ_LEN :: nat
  VOCAB_SIZE :: nat
  BATCH_SIZE :: nat
  WARM_STEPS :: nat
  COOL_STEPS :: nat
  MAX_STEPS :: nat
  EVAL_EVERY :: nat
  EVAL_STEPS :: nat
  INIT_LR :: real
  MAX_LR :: real
  GRAD_CLIP :: real
  LOSS_WIN :: nat
  RETRAIN_TOKENIZER :: bool
  DEMO_JUST_ONE_ITRE :: bool

definition notebook_config :: config where
  "notebook_config =
     \<lparr> MAX_SEQ_LEN = 256, VOCAB_SIZE = 16000, BATCH_SIZE = 16,
       WARM_STEPS = 5000, COOL_STEPS = 195000, MAX_STEPS = 200000,
       EVAL_EVERY = 25000, EVAL_STEPS = 1000,
       INIT_LR = 1 / 10000, MAX_LR = 1 / 1000, GRAD_CLIP = 5, LOSS_WIN = 32,
       RETRAIN_TOKENIZER = False, DEMO_JUST_ONE_ITRE = True \<rparr>"

text \<open>
  \<open>OneCycleLR(optimizer, max_lr=MAX_LR, total_steps=WARM_STEPS+COOL_STEPS, ...)\<close>: the
  schedule length the scheduler is built with.
\<close>

definition total_steps :: "config \<Rightarrow> nat" where
  "total_steps cfg = WARM_STEPS cfg + COOL_STEPS cfg"

subsection \<open>Checkpoint file names\<close>

text \<open>
  \<open>checkpoint_file = "/mnt/data/checkpoints/translation_en_nl/checkpoint_v{}.pt".format(VOCAB_SIZE)\<close>
  and, at each save,
  \<open>checkpoint_file.replace(".pt", "-{:08d}.pt".format(global_step))\<close>.
  Both numbers are non-negative integers here: \<open>str_nat\<close> is Python's decimal
  \<open>str\<close>, \<open>format_08d\<close> is the format \<open>{:08d}\<close> (zero padding to a width of at
  least eight, never truncating), \<open>str_replace\<close> is \<open>str.replace\<close>, which replaces
  every non-overlapping occurrence from the left.
\<close>

definition digit_char :: "nat \<Rightarrow> char" where
  "digit_char d = char_of (48 + d)"

definition digit_val :: "char \<Rightarrow> nat" where
  "digit_val c = of_char c - 48"

fun str_nat :: "nat \<Rightarrow> string" where
  "str_nat n =
     (if n < 10 then [digit_char n] else str_nat (n div 10) @ [digit_char (n mod 10)])"

declare str_nat.simps [simp del]

definition format_08d :: "nat \<Rightarrow> string" where
  "format_08d n = replicate (8 - length (str_nat n)) (CHR ''0'') @ str_nat n"

function str_replace_from :: "string \<Rightarrow> string \<Rightarrow> string \<Rightarrow> string" where
  "str_replace_from [] old new = []"
| "str_replace_from (c # cs) old new =
     (if old \<noteq> [] \<and> take (length old) (c # cs) = old
      then new @ str_replace_from (drop (length old) (c # cs)) old new
      else c # str_replace_from cs old new)"
  by pat_completeness auto
termination
  by (relation "measure (\<lambda>(s, old, new). length s)") auto

definition str_replace :: "string \<Rightarrow> string \<Rightarrow> string \<Rightarrow> string" where
  "str_replace s old new =
     (if old = [] then new @ concat (map (\<lambda>c. c # new) s)
      else str_replace_from s old new)"

definition checkpoint_file :: "nat \<Rightarrow> string" where
  "checkpoint_file vocab_size =
     ''/mnt/data/checkpoints/translation_en_nl/checkpoint_v'' @ str_nat vocab_size @ ''.pt''"

definition checkpoint_name :: "nat \<Rightarrow> nat \<Rightarrow> string" where
  "checkpoint_name vocab_size step =
     str_replace (checkpoint_file vocab_size) ''.pt'' (''-'' @ format_08d step @ ''.pt'')"

text \<open>The value of a string of decimal digits, used to read a file name back.\<close>

definition str_val :: "string \<Rightarrow> nat" where
  "str_val s = foldl (\<lambda>a c. 10 * a + digit_val c) 0 s"

subsection \<open>Examples, batches, the collator and the data loader\<close>

text \<open>
  A dataset item is the triple (source ids, target-input ids, target-label ids). A batch
  is the five-tuple the loop unpacks, \<open>x, y_in, y_true, x_lens, y_lens\<close> (the
  field \<open>x_in\<close> is the notebook's \<open>x\<close>); a two-dimensional integer tensor is
  the list of its rows.
\<close>

type_synonym example = "nat list \<times> nat list \<times> nat list"

record batch =
  x_in :: "nat list list"
  y_in :: "nat list list"
  y_true :: "nat list list"
  x_lens :: "nat list"
  y_lens :: "nat list"

definition has_shape :: "'a list list \<Rightarrow> nat \<times> nat \<Rightarrow> bool" where
  "has_shape t shp = (length t = fst shp \<and> list_all (\<lambda>row. length row = snd shp) t)"

text \<open>
  Modelled from the spec: \<open>mytransformers.data.pad_to_seq_len\<close>, the collate function
  the notebook imports, is not part of the notebook. The spec has it pad every sequence
  with zeros to the configured maximum length, truncating longer ones, and record the
  true (unpadded) length of each example.
\<close>

definition pad_row :: "nat \<Rightarrow> nat list \<Rightarrow> nat list" where
  "pad_row max_seq_len ids = take max_seq_len ids @ replicate (max_seq_len - length ids) 0"

definition pad_to_seq_len :: "nat \<Rightarrow> example list \<Rightarrow> batch" where
  "pad_to_seq_len max_seq_len samples =
     \<lparr> x_in = map (\<lambda>(src, tgt_in, tgt_out). pad_row max_seq_len src) samples,
       y_in = map (\<lambda>(src, tgt_in, tgt_out). pad_row max_seq_len tgt_in) samples,
       y_true = map (\<lambda>(src, tgt_in, tgt_out). pad_row max_seq_len tgt_out) samples,
       x_lens = map (\<lambda>(src, tgt_in, tgt_out). length src) samples,
       y_lens = map (\<lambda>(src, tgt_in, tgt_out). length tgt_in) samples \<rparr>"

text \<open>
  \<open>torch.utils.data.DataLoader(dataset, batch_size=BATCH_SIZE, collate_fn=...)\<close> with the
  default \<open>drop_last=False\<close>: the samples of one pass, in the order the sampler gives
  them, are cut into consecutive groups of \<open>batch_size\<close>, the last group keeping what
  is left, and each group is collated. (The notebook prints 112375 batches for 1797997
  samples at batch size 16: the last, partial group is kept.)
\<close>

function batch_sampler :: "nat \<Rightarrow> 'a list \<Rightarrow> 'a list list" where
  "batch_sampler batch_size samples =
     (if batch_size = 0 \<or> samples = [] then []
      else take batch_size samples # batch_sampler batch_size (drop batch_size samples))"
  by pat_completeness auto
termination
  by (relation "measure (\<lambda>(batch_size, samples). length samples)") auto

declare batch_sampler.simps [simp del]

definition DataLoader :: "nat \<Rightarrow> nat \<Rightarrow> example list \<Rightarrow> batch list" where
  "DataLoader batch_size max_seq_len samples =
     map (pad_to_seq_len max_seq_len) (batch_sampler batch_size samples)"

subsection \<open>The loss\<close>

text \<open>
  \<open>criterion = torch.nn.CrossEntropyLoss(ignore_index=0, reduction="sum")\<close>, applied as
  \<open>criterion(y_pred.transpose(1, 2), y_true)\<close>. The prediction tensor is the list, per
  example and per position, of what the model predicts there; \<open>nll p t\<close> is the
  cross entropy of prediction \<open>p\<close> against target id \<open>t\<close>. Positions whose target is
  the ignore index contribute nothing, and the contributions are summed. PyTorch raises
  when the two tensors disagree in shape: a \<open>ValueError\<close> when their batch dimensions
  differ (\<open>Expected input batch_size ... to match target batch_size\<close>), and, the batch
  dimensions being equal, a \<open>RuntimeError\<close> when their sequence dimensions differ
  (\<open>Expected target size ..., got ...\<close>).
\<close>

definition ignore_index :: nat where
  "ignore_index = 0"

definition same_shape :: "'a list list \<Rightarrow> 'b list list \<Rightarrow> bool" where
  "same_shape a b = list_all2 (\<lambda>r r'. length r = length r') a b"

definition cross_entropy_sum ::
  "('p \<Rightarrow> nat \<Rightarrow> real) \<Rightarrow> 'p list list \<Rightarrow> nat list list \<Rightarrow> real" where
  "cross_entropy_sum nll y_pred targets =
     sum_list (map (\<lambda>(ps, ts).
        sum_list (map (\<lambda>(p, t). if t = ignore_index then 0 else nll p t) (zip ps ts)))
        (zip y_pred targets))"

definition criterion ::
  "('p \<Rightarrow> nat \<Rightarrow> real) \<Rightarrow> 'p list list \<Rightarrow> nat list list \<Rightarrow> pyexn + tfloat" where
  "criterion nll y_pred targets =
     (if length y_pred \<noteq> length targets then Inl ValueError
      else if \<not> same_shape y_pred targets then Inl RuntimeError
      else Inr (Val (cross_entropy_sum nll y_pred targets)))"

subsection \<open>What the loop calls\<close>

text \<open>
  The collaborators of the loop. \<open>'m\<close> is the state of the model together with its
  optimizer, \<open>'sch\<close> the state of the scheduler, \<open>'p\<close> what the model predicts at
  one position.
  \<^item> \<open>train_dataloader k\<close>: what the \<open>k\<close>-th iterator built from the (shuffling)
    training loader yields, in order; an item is a batch or the exception its fetch raises.
  \<^item> \<open>valid_dataloader\<close>: the same for the validation loader, which does not shuffle.
  \<^item> \<open>forward training m b\<close>: \<open>mytransformer(x, y_in, x_lens, y_lens)\<close> in training
    or evaluation mode.
  \<^item> \<open>optimizer_update m b loss\<close>: \<open>loss.backward()\<close>, gradient clipping,
    \<open>optimizer.step()\<close> and the later \<open>optimizer.zero_grad()\<close>.
  \<^item> \<open>scheduler_step sch\<close>: \<open>scheduler.step()\<close>; the state it leaves and the
    exception it raised, if any.
  \<^item> \<open>infer_samples m\<close>: greedy decoding of the three sample sentences, which only
    prints.
  \<^item> \<open>torch_save name\<close>: the write of a checkpoint file.
\<close>

record ('m, 'sch, 'p) env =
  train_dataloader :: "nat \<Rightarrow> (pyexn + batch) list"
  valid_dataloader :: "(pyexn + batch) list"
  forward :: "bool \<Rightarrow> 'm \<Rightarrow> batch \<Rightarrow> pyexn + 'p list list"
  nll :: "'p \<Rightarrow> nat \<Rightarrow> real"
  optimizer_update :: "'m \<Rightarrow> batch \<Rightarrow> tfloat \<Rightarrow> pyexn + 'm"
  scheduler_step :: "'sch \<Rightarrow> 'sch \<times> pyexn option"
  infer_samples :: "'m \<Rightarrow> pyexn option"
  torch_save :: "string \<Rightarrow> pyexn option"

text \<open>
  The forward pass, the criterion and the normalisation, as both the training step and
  the evaluation loop write them:
  \<open>_, y_pred = mytransformer(x, y_in, x_lens, y_lens)\<close>,
  \<open>loss = criterion(y_pred.transpose(1, 2), y_true)\<close>,
  \<open>loss /= torch.sum(y_lens)\<close>.
\<close>

definition forward_loss ::
  "('m, 'sch, 'p) env \<Rightarrow> bool \<Rightarrow> 'm \<Rightarrow> batch \<Rightarrow> pyexn + tfloat" where
  "forward_loss env training m b =
     (case forward env training m b of
        Inl e \<Rightarrow> Inl e
      | Inr y_pred \<Rightarrow>
          (case criterion (nll env) y_pred (y_true b) of
             Inl e \<Rightarrow> Inl e
           | Inr loss \<Rightarrow> Inr (true_divide loss (sum_list (y_lens b)))))"

subsection \<open>The state of the loop\<close>

datatype printout =
  TrainLoss nat nat tfloat tfloat
| Evaluating
| EvalLoss nat tfloat
| Samples
| CheckpointSaved
| DemoBreak

record ('m, 'sch) checkpoint =
  ckpt_epoch :: nat
  ckpt_global_step :: nat
  model_state_dict :: 'm
  scheduler_state_dict :: 'sch
  ckpt_windowed_losses :: "tfloat list"
  avg_loss :: tfloat
  eval_loss :: tfloat
  ckpt_batch_size :: nat

text \<open>
  The variables of the training cell. \<open>sched_calls\<close> is not a variable of the notebook:
  it counts the calls of \<open>scheduler.step()\<close> the loop has made. \<open>stdout\<close> is what
  has been printed, \<open>saved\<close> the checkpoint files written, oldest first.
\<close>

record ('m, 'sch) train_state =
  model :: 'm
  scheduler :: 'sch
  sched_calls :: nat
  train_iterator :: "(pyexn + batch) list"
  global_step :: nat
  epoch :: nat
  windowed_losses :: "tfloat list"
  span_losses :: "tfloat list"
  stdout :: "printout list"
  saved :: "(string \<times> ('m, 'sch) checkpoint) list"

definition init_state :: "('m, 'sch, 'p) env \<Rightarrow> 'm \<Rightarrow> 'sch \<Rightarrow> ('m, 'sch) train_state" where
  "init_state env m0 sch0 =
     \<lparr> model = m0, scheduler = sch0, sched_calls = 0,
       train_iterator = train_dataloader env 0,
       global_step = 0, epoch = 0, windowed_losses = [], span_losses = [],
       stdout = [], saved = [] \<rparr>"

subsection \<open>Drawing a batch\<close>

text \<open>\<open>next(it)\<close>: an exhausted iterator raises \<open>StopIteration\<close>.\<close>

fun next_item :: "(pyexn + 'a) list \<Rightarrow> pyexn + ('a \<times> (pyexn + 'a) list)" where
  "next_item [] = Inl StopIteration"
| "next_item (Inl e # rest) = Inl e"
| "next_item (Inr b # rest) = Inr (b, rest)"

text \<open>
  \<^verbatim>\<open>
  try:
      batch = next(train_iterator)
  except StopIteration:
      epoch += 1
      train_iterator = iter(train_dataloader)
      batch = next(train_iterator)
  \<close>
  The iterator built in the handler is the one of pass \<open>epoch\<close> (after the increment).
  An exception of the second \<open>next\<close> is raised inside the handler and propagates.
\<close>

definition draw_batch ::
  "('m, 'sch, 'p) env \<Rightarrow> ('m, 'sch) train_state \<Rightarrow> pyexn + (batch \<times> ('m, 'sch) train_state)" where
  "draw_batch env s =
     (case next_item (train_iterator s) of
        Inr (b, it) \<Rightarrow> Inr (b, s\<lparr>train_iterator := it\<rparr>)
      | Inl e \<Rightarrow>
          if e = StopIteration then
            (case next_item (train_dataloader env (epoch s + 1)) of
               Inr (b, it) \<Rightarrow> Inr (b, s\<lparr>epoch := epoch s + 1, train_iterator := it\<rparr>)
             | Inl e' \<Rightarrow> Inl e')
          else Inl e)"

subsection \<open>Stepping the scheduler\<close>

text \<open>
  \<^verbatim>\<open>
  if global_step < (WARM_STEPS + COOL_STEPS):
      try:
          scheduler.step()
      except:
          pass
  \<close>
  The bare \<open>except\<close> drops whatever the call raised.
\<close>

definition scheduler_phase ::
  "('m, 'sch, 'p) env \<Rightarrow> config \<Rightarrow> ('m, 'sch) train_state \<Rightarrow> ('m, 'sch) train_state" where
  "scheduler_phase env cfg s =
     (if global_step s < WARM_STEPS cfg + COOL_STEPS cfg
      then (case scheduler_step env (scheduler s) of
              (sch', raised) \<Rightarrow> s\<lparr>scheduler := sch', sched_calls := sched_calls s + 1\<rparr>)
      else s)"

subsection \<open>Evaluation and checkpoint\<close>

text \<open>
  \<^verbatim>\<open>
  for idx, batch in tqdm.tqdm(enumerate(valid_dataloader), total=EVAL_STEPS):
      ...
      eval_losses.append(loss.item())
      if idx >= EVAL_STEPS:
          break
  \<close>
\<close>

fun eval_loop ::
  "('m, 'sch, 'p) env \<Rightarrow> config \<Rightarrow> 'm \<Rightarrow> nat \<Rightarrow> (pyexn + batch) list \<Rightarrow> tfloat list
     \<Rightarrow> pyexn + tfloat list" where
  "eval_loop env cfg m idx [] eval_losses = Inr eval_losses"
| "eval_loop env cfg m idx (Inl e # rest) eval_losses = Inl e"
| "eval_loop env cfg m idx (Inr b # rest) eval_losses =
     (case forward_loss env False m b of
        Inl e \<Rightarrow> Inl e
      | Inr loss \<Rightarrow>
          if EVAL_STEPS cfg \<le> idx then Inr (eval_losses @ [loss])
          else eval_loop env cfg m (idx + 1) rest (eval_losses @ [loss]))"

text \<open>
  The body of \<open>if global_step % EVAL_EVERY == 0:\<close>. It prints the training loss, runs
  the evaluation loop, prints the mean of the evaluation losses, decodes the samples,
  saves the checkpoint under \<open>checkpoint_name\<close>, empties \<open>span_losses\<close>, and breaks
  out of the training loop when \<open>DEMO_JUST_ONE_ITRE\<close> is set. The second component of
  the result says whether the loop is left.
\<close>

definition evaluation ::
  "('m, 'sch, 'p) env \<Rightarrow> config \<Rightarrow> ('m, 'sch) train_state \<Rightarrow> tfloat
     \<Rightarrow> pyexn + (('m, 'sch) train_state \<times> bool)" where
  "evaluation env cfg s loss =
     (case eval_loop env cfg (model s) 0 (valid_dataloader env) [] of
        Inl e \<Rightarrow> Inl e
      | Inr eval_losses \<Rightarrow>
          (case infer_samples env (model s) of
             Some e \<Rightarrow> Inl e
           | None \<Rightarrow>
               (case torch_save env (checkpoint_name (VOCAB_SIZE cfg) (global_step s)) of
                  Some e \<Rightarrow> Inl e
                | None \<Rightarrow>
                    Inr (s\<lparr> stdout := stdout s @
                               [TrainLoss (epoch s + 1) (global_step s) loss
                                  (np_mean (span_losses s)),
                                Evaluating,
                                EvalLoss (epoch s + 1) (np_mean eval_losses),
                                Samples,
                                CheckpointSaved] @
                               (if DEMO_JUST_ONE_ITRE cfg then [DemoBreak] else []),
                             saved := saved s @
                               [(checkpoint_name (VOCAB_SIZE cfg) (global_step s),
                                 \<lparr> ckpt_epoch = epoch s + 1,
                                   ckpt_global_step = global_step s,
                                   model_state_dict = model s,
                                   scheduler_state_dict = scheduler s,
                                   ckpt_windowed_losses = windowed_losses s,
                                   avg_loss = np_mean (windowed_losses s),
                                   eval_loss = np_mean eval_losses,
                                   ckpt_batch_size = BATCH_SIZE cfg \<rparr>)],
                             span_losses := [] \<rparr>,
                         DEMO_JUST_ONE_ITRE cfg))))"

subsection \<open>The training step and the training loop\<close>

text \<open>\<open>xs[-n:]\<close>: the last \<open>n\<close> elements, and the whole list when \<open>n\<close> is 0.\<close>

definition py_last_n :: "nat \<Rightarrow> 'a list \<Rightarrow> 'a list" where
  "py_last_n n xs = (if n = 0 then xs else drop (length xs - n) xs)"

text \<open>
  \<^verbatim>\<open>
  span_losses.append(loss.item())
  windowed_losses.append(loss.item())
  windowed_losses = windowed_losses[-LOSS_WIN:]
  \<close>
\<close>

definition record_loss ::
  "config \<Rightarrow> tfloat \<Rightarrow> ('m, 'sch) train_state \<Rightarrow> ('m, 'sch) train_state" where
  "record_loss cfg loss s =
     s\<lparr> span_losses := span_losses s @ [loss],
        windowed_losses := py_last_n (LOSS_WIN cfg) (windowed_losses s @ [loss]) \<rparr>"

text \<open>
  One pass through the body of \<open>while global_step < MAX_STEPS:\<close>. The test
  \<open>global_step % EVAL_EVERY == 0\<close> raises \<open>ZeroDivisionError\<close> when
  \<open>EVAL_EVERY\<close> is 0.
\<close>

definition train_step ::
  "('m, 'sch, 'p) env \<Rightarrow> config \<Rightarrow> ('m, 'sch) train_state
     \<Rightarrow> pyexn + (('m, 'sch) train_state \<times> bool)" where
  "train_step env cfg s =
     (case draw_batch env (s\<lparr>global_step := global_step s + 1\<rparr>) of
        Inl e \<Rightarrow> Inl e
      | Inr (b, s1) \<Rightarrow>
          (case forward_loss env True (model s1) b of
             Inl e \<Rightarrow> Inl e
           | Inr loss \<Rightarrow>
               (case optimizer_update env (model s1) b loss of
                  Inl e \<Rightarrow> Inl e
                | Inr m' \<Rightarrow>
                    (let s2 = scheduler_phase env cfg (s1\<lparr>model := m'\<rparr>);
                         s3 = record_loss cfg loss s2
                     in if EVAL_EVERY cfg = 0 then Inl ZeroDivisionError
                        else if global_step s3 mod EVAL_EVERY cfg = 0
                        then evaluation env cfg s3 loss
                        else Inr (s3, False)))))"

text \<open>
  \<open>while global_step < MAX_STEPS:\<close>. An exception of the body ends the loop with that
  exception; a \<open>break\<close> or a false loop test ends it with the state reached.
\<close>

function train_loop ::
  "('m, 'sch, 'p) env \<Rightarrow> config \<Rightarrow> ('m, 'sch) train_state \<Rightarrow> pyexn + ('m, 'sch) train_state" where
  "train_loop env cfg s =
     (if global_step s < MAX_STEPS cfg then
        (case train_step env cfg s of
           Inl e \<Rightarrow> Inl e
         | Inr (s', brk) \<Rightarrow> if brk then Inr s' else train_loop env cfg s')
      else Inr s)"
  by pat_completeness auto
termination
proof (relation "measure (\<lambda>(env, cfg, s). MAX_STEPS cfg - global_step s)")
  show "wf (measure (\<lambda>(env, cfg, s). MAX_STEPS cfg - global_step s))" by simp
next
  fix env :: "('m, 'sch, 'p) env" and cfg s x2 s' brk
  assume lt: "global_step s < MAX_STEPS cfg"
    and st: "train_step env cfg s = Inr x2" and x2: "(s', brk) = x2"
  from st x2 obtain b s1 loss m' where
    d: "draw_batch env (s\<lparr>global_step := global_step s + 1\<rparr>) = Inr (b, s1)" and
    r: "(let s3 = record_loss cfg loss (scheduler_phase env cfg (s1\<lparr>model := m'\<rparr>))
         in if global_step s3 mod EVAL_EVERY cfg = 0 then evaluation env cfg s3 loss
            else Inr (s3, False)) = Inr (s', brk)"
    by (auto simp: train_step_def Let_def split: sum.splits prod.splits if_splits)
  from d have "global_step s1 = Suc (global_step s)"
    by (auto simp: draw_batch_def split: sum.splits if_splits)
  then have "global_step (record_loss cfg loss (scheduler_phase env cfg (s1\<lparr>model := m'\<rparr>)))
      = Suc (global_step s)"
    by (simp add: record_loss_def scheduler_phase_def split: prod.splits)
  with r have "global_step s' = Suc (global_step s)"
    by (auto simp: Let_def evaluation_def split: if_splits sum.splits option.splits)
  with lt show "((env, cfg, s'), (env, cfg, s))
      \<in> measure (\<lambda>(env, cfg, s). MAX_STEPS cfg - global_step s)"
    by simp
qed

declare train_loop.simps [simp del]

text \<open>
  The state after at most \<open>n\<close> passes through the loop body, with the flag that says
  whether the loop was left by \<open>break\<close>: the states a run goes through, also a run
  that an exception ends later.
\<close>

fun run_steps ::
  "('m, 'sch, 'p) env \<Rightarrow> config \<Rightarrow> nat \<Rightarrow> ('m, 'sch) train_state
     \<Rightarrow> pyexn + (('m, 'sch) train_state \<times> bool)" where
  "run_steps env cfg 0 s = Inr (s, False)"
| "run_steps env cfg (Suc n) s =
     (if global_step s < MAX_STEPS cfg then
        (case train_step env cfg s of
           Inl e \<Rightarrow> Inl e
         | Inr (s', brk) \<Rightarrow> if brk then Inr (s', True) else run_steps env cfg n s')
      else Inr (s, False))"

subsection \<open>Runs in which nothing raises\<close>

text \<open>
  Hypotheses for statements about complete runs: every fetch of a loader yields a batch,
  every pass of the training loader has at least one batch, and the forward pass (with a
  prediction tensor of the target's shape), the optimizer update, the sample decoding and
  the checkpoint write succeed. \<open>scheduler.step()\<close> may raise.
\<close>

definition fetches_ok :: "(pyexn + 'a) list \<Rightarrow> bool" where
  "fetches_ok items = list_all (\<lambda>it. \<not> isl it) items"

definition calls_ok :: "('m, 'sch, 'p) env \<Rightarrow> bool" where
  "calls_ok env =
     ((\<forall>training m b. \<exists>y_pred. forward env training m b = Inr y_pred \<and>
                                same_shape y_pred (y_true b)) \<and>
      (\<forall>m b loss. \<exists>m'. optimizer_update env m b loss = Inr m') \<and>
      (\<forall>m. infer_samples env m = None) \<and>
      (\<forall>name. torch_save env name = None))"

definition raises_nothing :: "('m, 'sch, 'p) env \<Rightarrow> bool" where
  "raises_nothing env =
     ((\<forall>k. train_dataloader env k \<noteq> [] \<and> fetches_ok (train_dataloader env k)) \<and>
      fetches_ok (valid_dataloader env) \<and> calls_ok env)"

subsection \<open>A small environment for concrete runs\<close>

text \<open>
  One batch of two examples padded to length three, loaders that yield it twice (training)
  and three times (validation), and collaborators that never raise: every position costs
  1, the optimizer and the scheduler count their calls.
\<close>

definition demo_batch :: batch where
  "demo_batch = \<lparr> x_in = [[5, 6, 0], [8, 0, 0]], y_in = [[2, 7, 0], [2, 9, 4]],
                  y_true = [[7, 3, 0], [9, 4, 3]], x_lens = [2, 1], y_lens = [2, 3] \<rparr>"

definition demo_env :: "(nat, nat, unit) env" where
  "demo_env =
     \<lparr> train_dataloader = (\<lambda>k. [Inr demo_batch, Inr demo_batch]),
       valid_dataloader = [Inr demo_batch, Inr demo_batch, Inr demo_batch],
       forward = (\<lambda>training m b. Inr (map (map (\<lambda>t. ())) (y_true b))),
       nll = (\<lambda>p t. 1),
       optimizer_update = (\<lambda>m b loss. Inr (Suc m)),
       scheduler_step = (\<lambda>sch. (Suc sch, None)),
       infer_samples = (\<lambda>m. None),
       torch_save = (\<lambda>name. None) \<rparr>"

definition demo_config :: config where
  "demo_config =
     notebook_config\<lparr> MAX_STEPS := 4, EVAL_EVERY := 2, EVAL_STEPS := 1,
                      WARM_STEPS := 1, COOL_STEPS := 3, DEMO_JUST_ONE_ITRE := False \<rparr>"

text \<open>
  The states the loop goes through in that environment with the configuration
  \<open>demo_config\<close>: four steps, an evaluation and a checkpoint after the second and the
  fourth, the training iterator exhausted at the third, and a schedule of four steps.
\<close>

definition demo_state_1 :: "(nat, nat) train_state" where
  "demo_state_1 =
     \<lparr> model = 1, scheduler = 1, sched_calls = 1, train_iterator = [Inr demo_batch],
       global_step = 1, epoch = 0, windowed_losses = [Val 1], span_losses = [Val 1],
       stdout = [], saved = [] \<rparr>"

definition demo_state_2 :: "(nat, nat) train_state" where
  "demo_state_2 =
     \<lparr> model = 2, scheduler = 2, sched_calls = 2, train_iterator = [],
       global_step = 2, epoch = 0, windowed_losses = [Val 1, Val 1], span_losses = [],
       stdout = [TrainLoss 1 2 (Val 1) (Val 1), Evaluating, EvalLoss 1 (Val 1), Samples,
                 CheckpointSaved],
       saved = [(checkpoint_name 16000 2,
                 \<lparr> ckpt_epoch = 1, ckpt_global_step = 2, model_state_dict = 2,
                   scheduler_state_dict = 2, ckpt_windowed_losses = [Val 1, Val 1],
                   avg_loss = Val 1, eval_loss = Val 1, ckpt_batch_size = 16 \<rparr>)] \<rparr>"

definition demo_state_3 :: "(nat, nat) train_state" where
  "demo_state_3 =
     demo_state_2\<lparr> model := 3, scheduler := 3, sched_calls := 3,
                    train_iterator := [Inr demo_batch], global_step := 3, epoch := 1,
                    windowed_losses := [Val 1, Val 1, Val 1], span_losses := [Val 1] \<rparr>"

definition demo_state_4 :: "(nat, nat) train_state" where
  "demo_state_4 =
     demo_state_3\<lparr> model := 4, train_iterator := [], global_step := 4,
                    windowed_losses := [Val 1, Val 1, Val 1, Val 1], span_losses := [],
                    stdout := stdout demo_state_3 @
                      [TrainLoss 2 4 (Val 1) (Val 1), Evaluating, EvalLoss 2 (Val 1), Samples,
                       CheckpointSaved],
                    saved := saved demo_state_3 @
                      [(checkpoint_name 16000 4,
                        \<lparr> ckpt_epoch = 2, ckpt_global_step = 4, model_state_dict = 4,
                          scheduler_state_dict = 3,
                          ckpt_windowed_losses = [Val 1, Val 1, Val 1, Val 1],
                          avg_loss = Val 1, eval_loss = Val 1, ckpt_batch_size = 16 \<rparr>)] \<rparr>"

text \<open>
  The same environment with a cross entropy that differs from position to position (the
  target id itself) and a validation loader of three batches, the second of one example:
  the losses are \<open>26 / 5\<close> for \<open>demo_batch\<close> and \<open>11 / 2\<close> for
  \<open>short_batch\<close>. \<open>weighted_state_1\<close> is the state after one training step there
  with the notebook's configuration.
\<close>

definition short_batch :: batch where
  "short_batch = \<lparr> x_in = [[5, 6, 0]], y_in = [[2, 8, 0]], y_true = [[8, 3, 0]],
                   x_lens = [2], y_lens = [2] \<rparr>"

definition weighted_env :: "(nat, nat, unit) env" where
  "weighted_env =
     demo_env\<lparr> nll := (\<lambda>p t. real t),
               valid_dataloader := [Inr demo_batch, Inr short_batch, Inr demo_batch] \<rparr>"

definition weighted_state_1 :: "(nat, nat) train_state" where
  "weighted_state_1 =
     \<lparr> model = 1, scheduler = 1, sched_calls = 1, train_iterator = [Inr demo_batch],
       global_step = 1, epoch = 0, windowed_losses = [Val (26 / 5)],
       span_losses = [Val (26 / 5)], stdout = [], saved = [] \<rparr>"

subsection \<open>What a run has written\<close>

text \<open>
  The checkpoint files written so far with the step count stored in each, the printouts
  of an evaluation loss, and the steps up to \<open>g\<close> at which the loop evaluates and
  saves: the multiples of \<open>EVAL_EVERY\<close>.
\<close>

definition saved_index :: "('m, 'sch) train_state \<Rightarrow> (string \<times> nat) list" where
  "saved_index s = map (\<lambda>(name, ckpt). (name, ckpt_global_step ckpt)) (saved s)"

fun is_eval_loss :: "printout \<Rightarrow> bool" where
  "is_eval_loss (EvalLoss e l) = True"
| "is_eval_loss p = False"

definition checkpoint_steps :: "config \<Rightarrow> nat \<Rightarrow> nat list" where
  "checkpoint_steps cfg g = filter (\<lambda>k. k mod EVAL_EVERY cfg = 0) [1..<Suc g]"

subsection \<open>The toy scenario\<close>

text \<open>
  A parallel corpus of ten lines, loaded with the notebook's batch size and maximum
  length, and the notebook's configuration with a budget of two steps and an evaluation
  after every step.
\<close>

definition toy_corpus :: "example list" where
  "toy_corpus = map (\<lambda>i. ([4 + i, 5], [2, 6 + i], [6 + i, 3])) [0..<10]"

definition toy_env :: "(nat, nat, unit) env" where
  "toy_env = demo_env\<lparr> train_dataloader := (\<lambda>k. map Inr (DataLoader 16 256 toy_corpus)),
                        valid_dataloader := map Inr (DataLoader 16 256 toy_corpus) \<rparr>"

definition toy_config :: config where
  "toy_config = notebook_config\<lparr> MAX_STEPS := 2, EVAL_EVERY := 1 \<rparr>"

subsection \<open>Rows of a batch\<close>

text \<open>
  Three samples of different lengths, one of them longer than the maximum length they are
  padded to below, and the number of examples in a batch.
\<close>

definition demo_samples :: "example list" where
  "demo_samples = [([5, 6], [2, 7], [7, 3]), ([8], [2, 9, 4, 6], [9, 4, 6, 3]), ([5], [2], [3])]"

definition batch_rows :: "batch \<Rightarrow> nat" where
  "batch_rows b = length (x_lens b)"

subsection \<open>The loss as the spec words it\<close>

text \<open>
  The positions of a target tensor that are not padding, row by row, and the sum the spec
  describes: the cross entropy summed over those positions. \<open>lens_count_targets\<close> says
  of a batch that its recorded target lengths are, example by example, the numbers of
  label ids that are not padding. \<open>zero_token_batch\<close> is a batch whose targets are all
  padding and whose target lengths are all zero.
\<close>

definition target_positions :: "nat list list \<Rightarrow> (nat \<times> nat) list" where
  "target_positions targets =
     concat (map (\<lambda>i. map (\<lambda>j. (i, j))
                          (filter (\<lambda>j. targets ! i ! j \<noteq> ignore_index)
                             [0..<length (targets ! i)]))
                 [0..<length targets])"

definition token_loss_sum ::
  "('p \<Rightarrow> nat \<Rightarrow> real) \<Rightarrow> 'p list list \<Rightarrow> nat list list \<Rightarrow> real" where
  "token_loss_sum nll_fn y_pred targets =
     (\<Sum>(i, j) \<leftarrow> target_positions targets. nll_fn (y_pred ! i ! j) (targets ! i ! j))"

definition lens_count_targets :: "batch \<Rightarrow> bool" where
  "lens_count_targets b =
     (y_lens b = map (\<lambda>row. length (filter (\<lambda>t. t \<noteq> ignore_index) row)) (y_true b))"

definition zero_token_batch :: batch where
  "zero_token_batch = \<lparr> x_in = [[5, 0, 0]], y_in = [[0, 0, 0]], y_true = [[0, 0, 0]],
                        x_lens = [1], y_lens = [0] \<rparr>"

subsection \<open>Environments in which something raises\<close>

text \<open>
  The small environment with one collaborator replaced by one that raises, a state whose
  iterator raises at its next fetch, and the notebook's configuration with an evaluation
  after every step that is bounded to one batch. The forward pass of \<open>shape_error_env\<close>
  returns one row for a batch of two examples, the one of \<open>sequence_error_env\<close> two
  rows of two positions for targets of three.
\<close>

definition step_config :: config where
  "step_config = notebook_config\<lparr> EVAL_EVERY := 1, EVAL_STEPS := 1 \<rparr>"

definition forward_error_env :: "(nat, nat, unit) env" where
  "forward_error_env = demo_env\<lparr>forward := \<lambda>training m b. Inl RuntimeError\<rparr>"

definition optimizer_error_env :: "(nat, nat, unit) env" where
  "optimizer_error_env = demo_env\<lparr>optimizer_update := \<lambda>m b loss. Inl RuntimeError\<rparr>"

definition save_error_env :: "(nat, nat, unit) env" where
  "save_error_env = demo_env\<lparr>torch_save := \<lambda>name. Some OSError\<rparr>"

definition scheduler_error_env :: "(nat, nat, unit) env" where
  "scheduler_error_env = demo_env\<lparr>scheduler_step := \<lambda>sch. (sch, Some RuntimeError)\<rparr>"

definition fetch_error_state :: "(nat, nat) train_state" where
  "fetch_error_state = (init_state demo_env 0 0)\<lparr>train_iterator := [Inl OSError]\<rparr>"

definition infer_error_env :: "(nat, nat, unit) env" where
  "infer_error_env = demo_env\<lparr>infer_samples := \<lambda>m. Some RuntimeError\<rparr>"

definition valid_fetch_error_env :: "(nat, nat, unit) env" where
  "valid_fetch_error_env = demo_env\<lparr>valid_dataloader := [Inr demo_batch, Inl OSError]\<rparr>"

definition shape_error_env :: "(nat, nat, unit) env" where
  "shape_error_env = demo_env\<lparr>forward := \<lambda>training m b. Inr [[()]]\<rparr>"

definition sequence_error_env :: "(nat, nat, unit) env" where
  "sequence_error_env = demo_env\<lparr>forward := \<lambda>training m b. Inr [[(), ()], [(), ()]]\<rparr>"

definition rebuilt_error_env :: "(nat, nat, unit) env" where
  "rebuilt_error_env = demo_env\<lparr>train_dataloader := \<lambda>k. if k = 0 then [] else [Inl OSError]\<rparr>"

section \<open>Supporting lemmas\<close>

subsection \<open>Decimal strings and file names\<close>

lemma digit_val_digit_char: "d < 10 \<Longrightarrow> digit_val (digit_char d) = d"
  by (simp add: digit_val_def digit_char_def)

lemma digit_char_not_dot: "d < 10 \<Longrightarrow> digit_char d \<noteq> CHR ''.''"
proof
  assume d: "d < 10" and eq: "digit_char d = CHR ''.''"
  from eq have "(of_char (digit_char d) :: nat) = of_char (CHR ''.'')" by simp
  with d show False by (simp add: digit_char_def)
qed

lemma str_nat_no_dot: "CHR ''.'' \<notin> set (str_nat n)"
proof (induction n rule: str_nat.induct)
  case (1 n)
  show ?case
  proof (cases "n < 10")
    case True
    then show ?thesis using digit_char_not_dot[of n] by (subst str_nat.simps) auto
  next
    case False
    have "n mod 10 < 10" by simp
    then have "digit_char (n mod 10) \<noteq> CHR ''.''" by (rule digit_char_not_dot)
    with False 1 show ?thesis by (subst str_nat.simps) auto
  qed
qed

lemma str_val_snoc: "str_val (s @ [c]) = 10 * str_val s + digit_val c"
  by (simp add: str_val_def)

lemma str_val_str_nat: "str_val (str_nat n) = n"
proof (induction n rule: str_nat.induct)
  case (1 n)
  show ?case
  proof (cases "n < 10")
    case True
    then show ?thesis
      by (subst str_nat.simps) (simp add: str_val_def digit_val_digit_char)
  next
    case False
    with 1 have "str_val (str_nat (n div 10)) = n div 10" by simp
    with False show ?thesis
      by (subst str_nat.simps) (simp add: str_val_snoc digit_val_digit_char)
  qed
qed

lemma str_val_leading_zero: "str_val (CHR ''0'' # t) = str_val t"
proof (induction t rule: rev_induct)
  case Nil
  show ?case by (simp add: str_val_def digit_val_def)
next
  case (snoc c t)
  have "str_val ((CHR ''0'' # t) @ [c]) = 10 * str_val (CHR ''0'' # t) + digit_val c"
    by (rule str_val_snoc)
  with snoc show ?case by (simp add: str_val_snoc)
qed

lemma str_val_zeros: "str_val (replicate k (CHR ''0'') @ s) = str_val s"
  by (induction k) (simp_all add: str_val_leading_zero)

lemma str_val_format_08d: "str_val (format_08d n) = n"
  by (simp add: format_08d_def str_val_zeros str_val_str_nat)

lemma length_format_08d: "8 \<le> length (format_08d n)"
  by (simp add: format_08d_def)

lemma str_replace_from_suffix:
  "CHR ''.'' \<notin> set s \<Longrightarrow> str_replace_from (s @ ''.pt'') ''.pt'' new = s @ new"
  by (induction s) auto

lemma checkpoint_name_eq:
  "checkpoint_name v g =
     ''/mnt/data/checkpoints/translation_en_nl/checkpoint_v'' @ str_nat v @
     ''-'' @ format_08d g @ ''.pt''"
proof -
  let ?p = "''/mnt/data/checkpoints/translation_en_nl/checkpoint_v'' @ str_nat v"
  have nodot: "CHR ''.'' \<notin> set ?p" using str_nat_no_dot[of v] by simp
  have "str_replace_from (?p @ ''.pt'') ''.pt'' (''-'' @ format_08d g @ ''.pt'')
          = ?p @ (''-'' @ format_08d g @ ''.pt'')"
    using nodot by (rule str_replace_from_suffix)
  then show ?thesis
    by (simp add: checkpoint_name_def checkpoint_file_def str_replace_def)
qed

lemma checkpoint_name_inj:
  assumes "checkpoint_name v g = checkpoint_name v g'"
  shows "g = g'"
proof -
  from assms have "format_08d g @ ''.pt'' = format_08d g' @ ''.pt''"
    by (simp add: checkpoint_name_eq)
  then have "format_08d g = format_08d g'" by simp
  then have "str_val (format_08d g) = str_val (format_08d g')" by simp
  then show ?thesis by (simp add: str_val_format_08d)
qed

subsection \<open>The loop, step by step\<close>

lemma draw_batch_global_step:
  "draw_batch env s = Inr (b, s1) \<Longrightarrow> global_step s1 = global_step s"
  by (auto simp: draw_batch_def split: sum.splits if_splits)

lemma scheduler_phase_global_step:
  "global_step (scheduler_phase env cfg s) = global_step s"
  by (simp add: scheduler_phase_def split: prod.splits)

lemma evaluation_global_step:
  "evaluation env cfg s loss = Inr (s', brk) \<Longrightarrow> global_step s' = global_step s"
  by (auto simp: evaluation_def split: sum.splits option.splits)

lemma record_loss_global_step: "global_step (record_loss cfg loss s) = global_step s"
  by (simp add: record_loss_def)

lemma train_step_cases:
  assumes "train_step env cfg s = Inr (s', brk)"
  obtains b s1 loss m' where
    "draw_batch env (s\<lparr>global_step := global_step s + 1\<rparr>) = Inr (b, s1)"
    "forward_loss env True (model s1) b = Inr loss"
    "optimizer_update env (model s1) b loss = Inr m'"
    "EVAL_EVERY cfg \<noteq> 0"
    "global_step s1 mod EVAL_EVERY cfg = 0 \<Longrightarrow>
       evaluation env cfg
         (record_loss cfg loss (scheduler_phase env cfg (s1\<lparr>model := m'\<rparr>))) loss
       = Inr (s', brk)"
    "global_step s1 mod EVAL_EVERY cfg \<noteq> 0 \<Longrightarrow>
       s' = record_loss cfg loss (scheduler_phase env cfg (s1\<lparr>model := m'\<rparr>)) \<and> \<not> brk"
  using assms
  by (auto simp: train_step_def Let_def record_loss_global_step scheduler_phase_global_step
      split: sum.splits prod.splits if_splits)

lemma train_step_global_step:
  assumes "train_step env cfg s = Inr (s', brk)"
  shows "global_step s' = Suc (global_step s)"
  using assms
proof (rule train_step_cases)
  fix b s1 loss m'
  assume d: "draw_batch env (s\<lparr>global_step := global_step s + 1\<rparr>) = Inr (b, s1)"
    and ev: "global_step s1 mod EVAL_EVERY cfg = 0 \<Longrightarrow>
       evaluation env cfg
         (record_loss cfg loss (scheduler_phase env cfg (s1\<lparr>model := m'\<rparr>))) loss
       = Inr (s', brk)"
    and nev: "global_step s1 mod EVAL_EVERY cfg \<noteq> 0 \<Longrightarrow>
       s' = record_loss cfg loss (scheduler_phase env cfg (s1\<lparr>model := m'\<rparr>)) \<and> \<not> brk"
  from d have g1: "global_step s1 = Suc (global_step s)"
    by (simp add: draw_batch_global_step)
  show ?thesis
  proof (cases "global_step s1 mod EVAL_EVERY cfg = 0")
    case True
    from evaluation_global_step[OF ev[OF True]] g1 show ?thesis
      by (simp add: record_loss_global_step scheduler_phase_global_step)
  next
    case False
    from nev[OF False] g1 show ?thesis
      by (simp add: record_loss_global_step scheduler_phase_global_step)
  qed
qed

lemma evaluation_cases:
  assumes "evaluation env cfg s loss = Inr (s', brk)"
  obtains eval_losses where
    "eval_loop env cfg (model s) 0 (valid_dataloader env) [] = Inr eval_losses"
    "infer_samples env (model s) = None"
    "torch_save env (checkpoint_name (VOCAB_SIZE cfg) (global_step s)) = None"
    "brk = DEMO_JUST_ONE_ITRE cfg"
    "s' = s\<lparr> stdout := stdout s @
                 [TrainLoss (epoch s + 1) (global_step s) loss (np_mean (span_losses s)),
                  Evaluating,
                  EvalLoss (epoch s + 1) (np_mean eval_losses),
                  Samples,
                  CheckpointSaved] @
                 (if DEMO_JUST_ONE_ITRE cfg then [DemoBreak] else []),
               saved := saved s @
                 [(checkpoint_name (VOCAB_SIZE cfg) (global_step s),
                   \<lparr> ckpt_epoch = epoch s + 1,
                     ckpt_global_step = global_step s,
                     model_state_dict = model s,
                     scheduler_state_dict = scheduler s,
                     ckpt_windowed_losses = windowed_losses s,
                     avg_loss = np_mean (windowed_losses s),
                     eval_loss = np_mean eval_losses,
                     ckpt_batch_size = BATCH_SIZE cfg \<rparr>)],
               span_losses := [] \<rparr>"
  using assms
  by (auto simp: evaluation_def split: sum.splits option.splits)

lemma run_steps_invariant:
  assumes step: "\<And>s s' brk. I s \<Longrightarrow> global_step s < MAX_STEPS cfg \<Longrightarrow>
                   train_step env cfg s = Inr (s', brk) \<Longrightarrow> I s'"
    and "I s" and "run_steps env cfg n s = Inr (s', brk)"
  shows "I s'"
  using assms(2,3)
proof (induction n arbitrary: s)
  case 0
  then show ?case by simp
next
  case (Suc n)
  show ?case
  proof (cases "global_step s < MAX_STEPS cfg")
    case False
    with Suc.prems show ?thesis by simp
  next
    case True
    with Suc.prems obtain s1 b1 where
      st: "train_step env cfg s = Inr (s1, b1)" and
      rest: "if b1 then s' = s1 else run_steps env cfg n s1 = Inr (s', brk)"
      by (auto split: sum.splits prod.splits if_splits)
    from step[OF Suc.prems(1) True st] have "I s1" .
    with rest Suc.IH show ?thesis by (cases b1) auto
  qed
qed

lemma train_loop_run_steps:
  "train_loop env cfg s = Inr s' \<Longrightarrow>
     \<exists>brk. run_steps env cfg (MAX_STEPS cfg - global_step s) s = Inr (s', brk)"
proof (induction env cfg s rule: train_loop.induct)
  case (1 env cfg s)
  show ?case
  proof (cases "global_step s < MAX_STEPS cfg")
    case False
    with "1.prems" have "s' = s" by (simp add: train_loop.simps)
    with False show ?thesis by (intro exI[of _ False]) simp
  next
    case True
    then obtain n where n: "MAX_STEPS cfg - global_step s = Suc n"
      by (cases "MAX_STEPS cfg - global_step s") auto
    from True "1.prems" obtain s1 b1 where
      st: "train_step env cfg s = Inr (s1, b1)" and
      rest: "if b1 then s' = s1 else train_loop env cfg s1 = Inr s'"
      by (subst (asm) train_loop.simps) (auto split: sum.splits prod.splits if_splits)
    have g: "global_step s1 = Suc (global_step s)" using st by (rule train_step_global_step)
    show ?thesis
    proof (cases b1)
      case True
      with rest st \<open>global_step s < MAX_STEPS cfg\<close> n show ?thesis by auto
    next
      case False
      with rest have "train_loop env cfg s1 = Inr s'" by simp
      have "MAX_STEPS cfg - global_step s1 = n" using g n by simp
      with "1.IH"[OF True st refl False \<open>train_loop env cfg s1 = Inr s'\<close>]
      have "\<exists>brk. run_steps env cfg n s1 = Inr (s', brk)" by simp
      with st False True n show ?thesis by auto
    qed
  qed
qed

subsection \<open>What a step changes\<close>

lemma draw_batch_fields:
  assumes "draw_batch env s = Inr (b, s1)"
  shows "model s1 = model s" "scheduler s1 = scheduler s" "sched_calls s1 = sched_calls s"
    "global_step s1 = global_step s" "windowed_losses s1 = windowed_losses s"
    "span_losses s1 = span_losses s" "stdout s1 = stdout s" "saved s1 = saved s"
  using assms by (auto simp: draw_batch_def split: sum.splits if_splits)

lemma scheduler_phase_sched_calls:
  "sched_calls (scheduler_phase env cfg s) =
     (if global_step s < WARM_STEPS cfg + COOL_STEPS cfg then Suc (sched_calls s)
      else sched_calls s)"
  by (simp add: scheduler_phase_def split: prod.splits)

lemma scheduler_phase_fields:
  "model (scheduler_phase env cfg s) = model s"
  "train_iterator (scheduler_phase env cfg s) = train_iterator s"
  "epoch (scheduler_phase env cfg s) = epoch s"
  "windowed_losses (scheduler_phase env cfg s) = windowed_losses s"
  "span_losses (scheduler_phase env cfg s) = span_losses s"
  "stdout (scheduler_phase env cfg s) = stdout s"
  "saved (scheduler_phase env cfg s) = saved s"
  by (simp_all add: scheduler_phase_def split: prod.splits)

lemma scheduler_phase_past:
  "\<not> global_step s < WARM_STEPS cfg + COOL_STEPS cfg \<Longrightarrow> scheduler_phase env cfg s = s"
  by (simp add: scheduler_phase_def)

lemma record_loss_fields:
  "model (record_loss cfg loss s) = model s"
  "scheduler (record_loss cfg loss s) = scheduler s"
  "sched_calls (record_loss cfg loss s) = sched_calls s"
  "train_iterator (record_loss cfg loss s) = train_iterator s"
  "epoch (record_loss cfg loss s) = epoch s"
  "stdout (record_loss cfg loss s) = stdout s"
  "saved (record_loss cfg loss s) = saved s"
  by (simp_all add: record_loss_def)

lemma evaluation_fields:
  assumes "evaluation env cfg s loss = Inr (s', brk)"
  shows "model s' = model s" "scheduler s' = scheduler s" "sched_calls s' = sched_calls s"
    "train_iterator s' = train_iterator s" "epoch s' = epoch s"
    "windowed_losses s' = windowed_losses s"
  using assms by (auto elim!: evaluation_cases)

lemma train_step_sched_calls:
  assumes "train_step env cfg s = Inr (s', brk)"
  shows "sched_calls s' =
     (if Suc (global_step s) < WARM_STEPS cfg + COOL_STEPS cfg then Suc (sched_calls s)
      else sched_calls s)"
  using assms
proof (rule train_step_cases)
  fix b s1 loss m'
  assume d: "draw_batch env (s\<lparr>global_step := global_step s + 1\<rparr>) = Inr (b, s1)"
    and ev: "global_step s1 mod EVAL_EVERY cfg = 0 \<Longrightarrow>
       evaluation env cfg
         (record_loss cfg loss (scheduler_phase env cfg (s1\<lparr>model := m'\<rparr>))) loss
       = Inr (s', brk)"
    and nev: "global_step s1 mod EVAL_EVERY cfg \<noteq> 0 \<Longrightarrow>
       s' = record_loss cfg loss (scheduler_phase env cfg (s1\<lparr>model := m'\<rparr>)) \<and> \<not> brk"
  let ?s3 = "record_loss cfg loss (scheduler_phase env cfg (s1\<lparr>model := m'\<rparr>))"
  have "sched_calls s' = sched_calls ?s3"
  proof (cases "global_step s1 mod EVAL_EVERY cfg = 0")
    case True
    from evaluation_fields(3)[OF ev[OF True]] show ?thesis .
  next
    case False
    from nev[OF False] show ?thesis by simp
  qed
  also have "\<dots> = (if Suc (global_step s) < WARM_STEPS cfg + COOL_STEPS cfg
                  then Suc (sched_calls s) else sched_calls s)"
    using draw_batch_fields(3,4)[OF d]
    by (simp add: record_loss_fields scheduler_phase_sched_calls)
  finally show ?thesis .
qed

lemma train_step_scheduler_past:
  assumes "train_step env cfg s = Inr (s', brk)"
    and "\<not> Suc (global_step s) < WARM_STEPS cfg + COOL_STEPS cfg"
  shows "scheduler s' = scheduler s"
  using assms(1)
proof (rule train_step_cases)
  fix b s1 loss m'
  assume d: "draw_batch env (s\<lparr>global_step := global_step s + 1\<rparr>) = Inr (b, s1)"
    and ev: "global_step s1 mod EVAL_EVERY cfg = 0 \<Longrightarrow>
       evaluation env cfg
         (record_loss cfg loss (scheduler_phase env cfg (s1\<lparr>model := m'\<rparr>))) loss
       = Inr (s', brk)"
    and nev: "global_step s1 mod EVAL_EVERY cfg \<noteq> 0 \<Longrightarrow>
       s' = record_loss cfg loss (scheduler_phase env cfg (s1\<lparr>model := m'\<rparr>)) \<and> \<not> brk"
  let ?s3 = "record_loss cfg loss (scheduler_phase env cfg (s1\<lparr>model := m'\<rparr>))"
  have "scheduler s' = scheduler ?s3"
  proof (cases "global_step s1 mod EVAL_EVERY cfg = 0")
    case True
    from evaluation_fields(2)[OF ev[OF True]] show ?thesis .
  next
    case False
    from nev[OF False] show ?thesis by simp
  qed
  also have "\<dots> = scheduler s"
    using draw_batch_fields(2,4)[OF d] assms(2)
    by (simp add: record_loss_fields scheduler_phase_past)
  finally show ?thesis .
qed

subsection \<open>The number of scheduler calls\<close>

lemma sched_calls_step:
  assumes inv: "sched_calls s = min (global_step s) (WARM_STEPS cfg + COOL_STEPS cfg - 1)"
    and st: "train_step env cfg s = Inr (s', brk)"
  shows "sched_calls s' = min (global_step s') (WARM_STEPS cfg + COOL_STEPS cfg - 1)"
  using inv train_step_sched_calls[OF st] train_step_global_step[OF st]
  by (auto simp: min_def)

lemma sched_calls_run_steps:
  assumes "run_steps env cfg n (init_state env m0 sch0) = Inr (s, brk)"
  shows "sched_calls s = min (global_step s) (WARM_STEPS cfg + COOL_STEPS cfg - 1)"
proof (rule run_steps_invariant[where I = "\<lambda>s. sched_calls s =
          min (global_step s) (WARM_STEPS cfg + COOL_STEPS cfg - 1)", OF _ _ assms])
  show "sched_calls (init_state env m0 sch0) =
      min (global_step (init_state env m0 sch0)) (WARM_STEPS cfg + COOL_STEPS cfg - 1)"
    by (simp add: init_state_def)
qed (rule sched_calls_step)

subsection \<open>Exceptions of the scheduler are dropped\<close>

lemma forward_loss_scheduler_irrelevant:
  "forward_loss (env\<lparr>scheduler_step := f\<rparr>) training m b = forward_loss env training m b"
  by (simp add: forward_loss_def cong: sum.case_cong)

lemma eval_loop_scheduler_irrelevant:
  "eval_loop (env\<lparr>scheduler_step := f\<rparr>) cfg m idx items acc = eval_loop env cfg m idx items acc"
  by (induction env cfg m idx items acc rule: eval_loop.induct)
     (auto simp: forward_loss_scheduler_irrelevant split: sum.splits)

lemma evaluation_scheduler_irrelevant:
  "evaluation (env\<lparr>scheduler_step := f\<rparr>) cfg s loss = evaluation env cfg s loss"
  by (simp add: evaluation_def eval_loop_scheduler_irrelevant
      cong: sum.case_cong option.case_cong)

lemma draw_batch_scheduler_irrelevant:
  "draw_batch (env\<lparr>scheduler_step := f\<rparr>) s = draw_batch env s"
  by (auto simp: draw_batch_def split: sum.splits)

lemma scheduler_phase_swallows:
  "scheduler_phase (env\<lparr>scheduler_step := \<lambda>sch. (fst (scheduler_step env sch), None)\<rparr>) cfg s
     = scheduler_phase env cfg s"
  by (simp add: scheduler_phase_def split: prod.splits)

lemma train_step_swallows:
  "train_step (env\<lparr>scheduler_step := \<lambda>sch. (fst (scheduler_step env sch), None)\<rparr>) cfg s
     = train_step env cfg s"
  unfolding train_step_def
  by (simp only: draw_batch_scheduler_irrelevant forward_loss_scheduler_irrelevant
      evaluation_scheduler_irrelevant scheduler_phase_swallows)
     (auto split: sum.splits)

subsection \<open>Steps and runs that succeed\<close>

lemma criterion_same_shape:
  assumes "same_shape y_pred targets"
  shows "criterion nll_fn y_pred targets = Inr (Val (cross_entropy_sum nll_fn y_pred targets))"
proof -
  from assms have "length y_pred = length targets"
    by (simp add: same_shape_def list_all2_lengthD)
  with assms show ?thesis by (simp add: criterion_def)
qed

lemma criterion_result:
  assumes "criterion nll_fn y_pred targets = Inr l"
  shows "same_shape y_pred targets" "l = Val (cross_entropy_sum nll_fn y_pred targets)"
  using assms by (auto simp: criterion_def split: if_splits)

lemma forward_loss_ok:
  assumes "calls_ok env"
  shows "\<exists>loss. forward_loss env training m b = Inr loss"
proof -
  from assms obtain y_pred where
    "forward env training m b = Inr y_pred" "same_shape y_pred (y_true b)"
    unfolding calls_ok_def by blast
  then show ?thesis by (simp add: forward_loss_def criterion_same_shape)
qed

lemma eval_loop_ok:
  assumes "calls_ok env" "fetches_ok items"
  shows "\<exists>ls. eval_loop env cfg m idx items acc = Inr ls"
  using assms(2)
proof (induction items arbitrary: idx acc)
  case Nil
  show ?case by simp
next
  case (Cons it items)
  from Cons.prems obtain b where it: "it = Inr b" and rest: "fetches_ok items"
    by (cases it) (auto simp: fetches_ok_def)
  from forward_loss_ok[OF assms(1)] obtain loss where
    "forward_loss env False m b = Inr loss" by blast
  with Cons.IH[OF rest] it show ?case by simp
qed

lemma evaluation_ok:
  assumes "calls_ok env" "fetches_ok (valid_dataloader env)"
  shows "\<exists>s'. evaluation env cfg s loss = Inr (s', DEMO_JUST_ONE_ITRE cfg)"
proof -
  from eval_loop_ok[OF assms] obtain ls where
    "eval_loop env cfg (model s) 0 (valid_dataloader env) [] = Inr ls" by blast
  moreover from assms(1) have "infer_samples env (model s) = None"
    "torch_save env (checkpoint_name (VOCAB_SIZE cfg) (global_step s)) = None"
    by (simp_all add: calls_ok_def)
  ultimately show ?thesis by (simp add: evaluation_def)
qed

lemma next_item_ok:
  assumes "fetches_ok items" "items \<noteq> []"
  shows "\<exists>b rest. next_item items = Inr (b, rest) \<and> items = Inr b # rest \<and> fetches_ok rest"
proof (cases items)
  case Nil
  with assms show ?thesis by simp
next
  case (Cons it rest)
  with assms show ?thesis by (cases it) (auto simp: fetches_ok_def)
qed

lemma draw_batch_ok:
  assumes tr: "\<forall>k. train_dataloader env k \<noteq> [] \<and> fetches_ok (train_dataloader env k)"
    and it: "fetches_ok (train_iterator s)"
  shows "\<exists>b s1. draw_batch env s = Inr (b, s1) \<and> fetches_ok (train_iterator s1)"
proof (cases "train_iterator s = []")
  case True
  from tr have "fetches_ok (train_dataloader env (epoch s + 1))"
    "train_dataloader env (epoch s + 1) \<noteq> []" by simp_all
  from next_item_ok[OF this] True show ?thesis by (auto simp: draw_batch_def)
next
  case False
  from next_item_ok[OF it False] show ?thesis by (auto simp: draw_batch_def)
qed

lemma train_step_ok:
  assumes env: "raises_nothing env" and it: "fetches_ok (train_iterator s)"
    and ev: "EVAL_EVERY cfg \<noteq> 0"
  shows "\<exists>s'. train_step env cfg s =
            Inr (s', DEMO_JUST_ONE_ITRE cfg \<and> Suc (global_step s) mod EVAL_EVERY cfg = 0) \<and>
          fetches_ok (train_iterator s')"
proof -
  from env have tr: "\<forall>k. train_dataloader env k \<noteq> [] \<and> fetches_ok (train_dataloader env k)"
    and va: "fetches_ok (valid_dataloader env)" and ca: "calls_ok env"
    by (simp_all add: raises_nothing_def)
  from it have "fetches_ok (train_iterator (s\<lparr>global_step := global_step s + 1\<rparr>))" by simp
  from draw_batch_ok[OF tr this] obtain b s1 where
    d: "draw_batch env (s\<lparr>global_step := global_step s + 1\<rparr>) = Inr (b, s1)" and
    it1: "fetches_ok (train_iterator s1)" by blast
  from forward_loss_ok[OF ca] obtain loss where
    fl: "forward_loss env True (model s1) b = Inr loss" by blast
  from ca obtain m' where ou: "optimizer_update env (model s1) b loss = Inr m'"
    unfolding calls_ok_def by blast
  let ?s3 = "record_loss cfg loss (scheduler_phase env cfg (s1\<lparr>model := m'\<rparr>))"
  have g3: "global_step ?s3 = Suc (global_step s)"
    using draw_batch_global_step[OF d]
    by (simp add: record_loss_global_step scheduler_phase_global_step)
  have it3: "train_iterator ?s3 = train_iterator s1"
    by (simp add: record_loss_fields scheduler_phase_fields)
  have ts: "train_step env cfg s =
      (if global_step ?s3 mod EVAL_EVERY cfg = 0 then evaluation env cfg ?s3 loss
       else Inr (?s3, False))"
    using d fl ou ev by (simp add: train_step_def Let_def)
  show ?thesis
  proof (cases "Suc (global_step s) mod EVAL_EVERY cfg = 0")
    case True
    from evaluation_ok[OF ca va] obtain s' where
      e: "evaluation env cfg ?s3 loss = Inr (s', DEMO_JUST_ONE_ITRE cfg)" by blast
    from evaluation_fields(4)[OF e] it3 it1 have "fetches_ok (train_iterator s')" by simp
    with ts e True g3 show ?thesis by simp
  next
    case False
    with ts g3 it3 it1 show ?thesis by simp
  qed
qed

lemma train_loop_ok:
  assumes env: "raises_nothing env" and ev: "EVAL_EVERY cfg \<noteq> 0"
  shows "fetches_ok (train_iterator s) \<Longrightarrow>
         \<exists>s'. train_loop env cfg s = Inr s' \<and>
              (\<not> DEMO_JUST_ONE_ITRE cfg \<longrightarrow> global_step s' = max (global_step s) (MAX_STEPS cfg))"
proof (induction "MAX_STEPS cfg - global_step s" arbitrary: s)
  case 0
  then have "\<not> global_step s < MAX_STEPS cfg" by simp
  then show ?case by (subst train_loop.simps) (simp add: max_def)
next
  case (Suc n)
  then have lt: "global_step s < MAX_STEPS cfg" by simp
  from train_step_ok[OF env Suc.prems ev] obtain s1 where
    st: "train_step env cfg s =
           Inr (s1, DEMO_JUST_ONE_ITRE cfg \<and> Suc (global_step s) mod EVAL_EVERY cfg = 0)"
    and it1: "fetches_ok (train_iterator s1)" by blast
  have g1: "global_step s1 = Suc (global_step s)" using st by (rule train_step_global_step)
  show ?case
  proof (cases "DEMO_JUST_ONE_ITRE cfg \<and> Suc (global_step s) mod EVAL_EVERY cfg = 0")
    case True
    with st lt show ?thesis by (subst train_loop.simps) simp
  next
    case False
    have "n = MAX_STEPS cfg - global_step s1" using Suc.hyps(2) g1 by simp
    from Suc.hyps(1)[OF this it1] obtain s' where
      tl: "train_loop env cfg s1 = Inr s'" and
      g: "\<not> DEMO_JUST_ONE_ITRE cfg \<longrightarrow> global_step s' = max (global_step s1) (MAX_STEPS cfg)"
      by blast
    have "train_loop env cfg s = Inr s'"
      using st lt False tl by (subst train_loop.simps) simp
    with g g1 lt show ?thesis by (auto simp: max_def)
  qed
qed

lemma same_shape_map: "same_shape (map (map f) t) t"
  by (simp add: same_shape_def list_all2_map1 list_all2_same)

lemma demo_env_raises_nothing: "raises_nothing demo_env"
  by (simp add: raises_nothing_def calls_ok_def fetches_ok_def demo_env_def same_shape_map)

lemma init_state_fetches_ok:
  "raises_nothing env \<Longrightarrow> fetches_ok (train_iterator (init_state env m0 sch0))"
  by (simp add: raises_nothing_def init_state_def)

lemma run_steps_ok:
  assumes env: "raises_nothing env" and ev: "EVAL_EVERY cfg \<noteq> 0"
    and nodemo: "\<not> DEMO_JUST_ONE_ITRE cfg"
  shows "fetches_ok (train_iterator s) \<Longrightarrow>
         \<exists>s'. run_steps env cfg n s = Inr (s', False) \<and> fetches_ok (train_iterator s') \<and>
              global_step s' = (if global_step s + n \<le> MAX_STEPS cfg then global_step s + n
                                else max (global_step s) (MAX_STEPS cfg))"
proof (induction n arbitrary: s)
  case 0
  then show ?case by (simp add: max_def)
next
  case (Suc n)
  show ?case
  proof (cases "global_step s < MAX_STEPS cfg")
    case False
    with Suc.prems show ?thesis by (simp add: max_def)
  next
    case True
    from train_step_ok[OF env Suc.prems ev] nodemo obtain s1 where
      st: "train_step env cfg s = Inr (s1, False)" and it1: "fetches_ok (train_iterator s1)"
      by auto
    have g1: "global_step s1 = Suc (global_step s)" using st by (rule train_step_global_step)
    from Suc.IH[OF it1] obtain s' where
      rs: "run_steps env cfg n s1 = Inr (s', False)" and it': "fetches_ok (train_iterator s')"
      and g': "global_step s' = (if global_step s1 + n \<le> MAX_STEPS cfg then global_step s1 + n
                                else max (global_step s1) (MAX_STEPS cfg))"
      by blast
    from st rs True have "run_steps env cfg (Suc n) s = Inr (s', False)" by simp
    with it' g' g1 True show ?thesis by (auto simp: max_def)
  qed
qed

subsection \<open>Checkpoints\<close>

lemma checkpoint_steps_Suc:
  "checkpoint_steps cfg (Suc g) =
     checkpoint_steps cfg g @ (if Suc g mod EVAL_EVERY cfg = 0 then [Suc g] else [])"
  by (simp add: checkpoint_steps_def)

lemma evaluation_saved:
  assumes "evaluation env cfg s loss = Inr (s', brk)"
  shows "saved_index s' =
           saved_index s @ [(checkpoint_name (VOCAB_SIZE cfg) (global_step s), global_step s)]"
    and "filter is_eval_loss (stdout s') =
           filter is_eval_loss (stdout s) @ [EvalLoss (epoch s + 1) (eval_loss (snd (last (saved s'))))]"
  using assms by (auto elim!: evaluation_cases simp: saved_index_def)

lemma train_step_saved:
  assumes "train_step env cfg s = Inr (s', brk)"
  shows "saved_index s' =
           saved_index s @
           (if Suc (global_step s) mod EVAL_EVERY cfg = 0
            then [(checkpoint_name (VOCAB_SIZE cfg) (Suc (global_step s)), Suc (global_step s))]
            else [])"
    and "length (filter is_eval_loss (stdout s')) =
           length (filter is_eval_loss (stdout s)) +
           (if Suc (global_step s) mod EVAL_EVERY cfg = 0 then 1 else 0)"
  using assms
proof (atomize (full), rule train_step_cases)
  fix b s1 loss m'
  assume d: "draw_batch env (s\<lparr>global_step := global_step s + 1\<rparr>) = Inr (b, s1)"
    and ev: "global_step s1 mod EVAL_EVERY cfg = 0 \<Longrightarrow>
       evaluation env cfg
         (record_loss cfg loss (scheduler_phase env cfg (s1\<lparr>model := m'\<rparr>))) loss
       = Inr (s', brk)"
    and nev: "global_step s1 mod EVAL_EVERY cfg \<noteq> 0 \<Longrightarrow>
       s' = record_loss cfg loss (scheduler_phase env cfg (s1\<lparr>model := m'\<rparr>)) \<and> \<not> brk"
  let ?s3 = "record_loss cfg loss (scheduler_phase env cfg (s1\<lparr>model := m'\<rparr>))"
  have g1: "global_step s1 = Suc (global_step s)"
    using draw_batch_global_step[OF d] by simp
  have s3: "saved ?s3 = saved s" "stdout ?s3 = stdout s" "global_step ?s3 = Suc (global_step s)"
    using draw_batch_fields[OF d] g1
    by (simp_all add: record_loss_fields record_loss_global_step scheduler_phase_fields
        scheduler_phase_global_step)
  then have i3: "saved_index ?s3 = saved_index s" by (simp add: saved_index_def)
  show "saved_index s' =
           saved_index s @
           (if Suc (global_step s) mod EVAL_EVERY cfg = 0
            then [(checkpoint_name (VOCAB_SIZE cfg) (Suc (global_step s)), Suc (global_step s))]
            else []) \<and>
        length (filter is_eval_loss (stdout s')) =
           length (filter is_eval_loss (stdout s)) +
           (if Suc (global_step s) mod EVAL_EVERY cfg = 0 then 1 else 0)"
  proof (cases "global_step s1 mod EVAL_EVERY cfg = 0")
    case True
    from evaluation_saved[OF ev[OF True]] True g1 s3 i3 show ?thesis by simp
  next
    case False
    from nev[OF False] False g1 s3 i3 show ?thesis by simp
  qed
qed

lemma saved_index_step:
  assumes inv: "saved_index s =
      map (\<lambda>k. (checkpoint_name (VOCAB_SIZE cfg) k, k)) (checkpoint_steps cfg (global_step s))"
    and st: "train_step env cfg s = Inr (s', brk)"
  shows "saved_index s' =
      map (\<lambda>k. (checkpoint_name (VOCAB_SIZE cfg) k, k)) (checkpoint_steps cfg (global_step s'))"
  using inv train_step_saved(1)[OF st] train_step_global_step[OF st]
  by (simp add: checkpoint_steps_Suc)

lemma saved_index_run_steps:
  assumes "run_steps env cfg n (init_state env m0 sch0) = Inr (s, brk)"
  shows "saved_index s =
      map (\<lambda>k. (checkpoint_name (VOCAB_SIZE cfg) k, k)) (checkpoint_steps cfg (global_step s))"
proof (rule run_steps_invariant[where I = "\<lambda>s. saved_index s =
      map (\<lambda>k. (checkpoint_name (VOCAB_SIZE cfg) k, k)) (checkpoint_steps cfg (global_step s))",
      OF _ _ assms])
  show "saved_index (init_state env m0 sch0) =
      map (\<lambda>k. (checkpoint_name (VOCAB_SIZE cfg) k, k))
        (checkpoint_steps cfg (global_step (init_state env m0 sch0)))"
    by (simp add: init_state_def saved_index_def checkpoint_steps_def)
qed (rule saved_index_step)

lemma eval_printouts_step:
  assumes inv: "length (filter is_eval_loss (stdout s)) = length (saved s)"
    and st: "train_step env cfg s = Inr (s', brk)"
  shows "length (filter is_eval_loss (stdout s')) = length (saved s')"
proof -
  have "length (saved t) = length (saved_index t)" for t :: "('a, 'b) train_state"
    by (simp add: saved_index_def)
  with inv train_step_saved[OF st] show ?thesis by simp
qed

lemma eval_printouts_run_steps:
  assumes "run_steps env cfg n (init_state env m0 sch0) = Inr (s, brk)"
  shows "length (filter is_eval_loss (stdout s)) = length (saved s)"
proof (rule run_steps_invariant[where I = "\<lambda>s. length (filter is_eval_loss (stdout s)) = length (saved s)",
      OF _ _ assms])
  show "length (filter is_eval_loss (stdout (init_state env m0 sch0))) =
      length (saved (init_state env m0 sch0))"
    by (simp add: init_state_def)
qed (rule eval_printouts_step)

lemma saved_names:
  assumes "saved_index s =
      map (\<lambda>k. (checkpoint_name v k, k)) ks"
  shows "map fst (saved s) = map (checkpoint_name v) ks"
proof -
  have "map fst (saved s) = map fst (saved_index s)"
    by (simp add: saved_index_def case_prod_unfold comp_def)
  with assms show ?thesis by (simp add: comp_def)
qed

lemma distinct_checkpoint_steps: "distinct (checkpoint_steps cfg g)"
  by (simp add: checkpoint_steps_def)

lemma saved_distinct_run_steps:
  assumes "run_steps env cfg n (init_state env m0 sch0) = Inr (s, brk)"
  shows "distinct (map fst (saved s))"
proof -
  from saved_names[OF saved_index_run_steps[OF assms]]
  have "map fst (saved s) =
      map (checkpoint_name (VOCAB_SIZE cfg)) (checkpoint_steps cfg (global_step s))" .
  moreover have "inj_on (checkpoint_name (VOCAB_SIZE cfg)) A" for A
    by (rule inj_onI) (rule checkpoint_name_inj)
  ultimately show ?thesis
    by (simp add: distinct_map distinct_checkpoint_steps)
qed

subsection \<open>The batch sampler\<close>

lemma batch_sampler_Nil [simp]: "batch_sampler n [] = []"
  by (simp add: batch_sampler.simps)

lemma batch_sampler_Cons:
  "0 < n \<Longrightarrow> xs \<noteq> [] \<Longrightarrow> batch_sampler n xs = take n xs # batch_sampler n (drop n xs)"
  by (subst batch_sampler.simps) simp

lemma batch_sampler_short:
  "0 < n \<Longrightarrow> xs \<noteq> [] \<Longrightarrow> length xs \<le> n \<Longrightarrow> batch_sampler n xs = [xs]"
  by (simp add: batch_sampler_Cons)

lemma fetches_ok_map_Inr: "fetches_ok (map Inr bs)"
  by (simp add: fetches_ok_def list_all_iff)

lemma train_step_ok_drawn:
  assumes ca: "calls_ok env" and va: "fetches_ok (valid_dataloader env)"
    and ev: "EVAL_EVERY cfg \<noteq> 0"
    and d: "draw_batch env (s\<lparr>global_step := global_step s + 1\<rparr>) = Inr (b, s1)"
  shows "\<exists>s'. train_step env cfg s =
            Inr (s', DEMO_JUST_ONE_ITRE cfg \<and> Suc (global_step s) mod EVAL_EVERY cfg = 0) \<and>
          train_iterator s' = train_iterator s1"
proof -
  from forward_loss_ok[OF ca] obtain loss where
    fl: "forward_loss env True (model s1) b = Inr loss" by blast
  from ca obtain m' where ou: "optimizer_update env (model s1) b loss = Inr m'"
    unfolding calls_ok_def by blast
  let ?s3 = "record_loss cfg loss (scheduler_phase env cfg (s1\<lparr>model := m'\<rparr>))"
  have g3: "global_step ?s3 = Suc (global_step s)"
    using draw_batch_global_step[OF d]
    by (simp add: record_loss_global_step scheduler_phase_global_step)
  have it3: "train_iterator ?s3 = train_iterator s1"
    by (simp add: record_loss_fields scheduler_phase_fields)
  have ts: "train_step env cfg s =
      (if global_step ?s3 mod EVAL_EVERY cfg = 0 then evaluation env cfg ?s3 loss
       else Inr (?s3, False))"
    using d fl ou ev by (simp add: train_step_def Let_def)
  show ?thesis
  proof (cases "Suc (global_step s) mod EVAL_EVERY cfg = 0")
    case True
    from evaluation_ok[OF ca va] obtain s' where
      e: "evaluation env cfg ?s3 loss = Inr (s', DEMO_JUST_ONE_ITRE cfg)" by blast
    from evaluation_fields(4)[OF e] it3 have "train_iterator s' = train_iterator s1" by simp
    with ts e True g3 show ?thesis by simp
  next
    case False
    with ts g3 it3 show ?thesis by simp
  qed
qed

subsection \<open>Shapes of the collated batches\<close>

lemma batch_sampler_concat: "0 < n \<Longrightarrow> concat (batch_sampler n xs) = xs"
proof (induction n xs rule: batch_sampler.induct)
  case (1 n xs)
  show ?case
  proof (cases "xs = []")
    case True
    then show ?thesis by simp
  next
    case False
    with 1 show ?thesis by (simp add: batch_sampler_Cons)
  qed
qed

lemma batch_sampler_group:
  "c \<in> set (batch_sampler n xs) \<Longrightarrow> 0 < length c \<and> length c \<le> n"
proof (induction n xs rule: batch_sampler.induct)
  case (1 n xs)
  show ?case
  proof (cases "n = 0 \<or> xs = []")
    case True
    then have "batch_sampler n xs = []" by (subst batch_sampler.simps) simp
    with "1.prems" show ?thesis by simp
  next
    case False
    with "1.prems" have "c = take n xs \<or> c \<in> set (batch_sampler n (drop n xs))"
      by (simp add: batch_sampler_Cons)
    then show ?thesis
    proof
      assume "c = take n xs"
      with False show ?thesis by simp
    next
      assume "c \<in> set (batch_sampler n (drop n xs))"
      with "1.IH" False show ?thesis by simp
    qed
  qed
qed

lemma batch_sampler_full:
  "Suc i < length (batch_sampler n xs) \<Longrightarrow> length (batch_sampler n xs ! i) = n"
proof (induction n xs arbitrary: i rule: batch_sampler.induct)
  case (1 n xs)
  show ?case
  proof (cases "n = 0 \<or> xs = []")
    case True
    then have "batch_sampler n xs = []" by (subst batch_sampler.simps) simp
    with "1.prems" show ?thesis by simp
  next
    case False
    then have eq: "batch_sampler n xs = take n xs # batch_sampler n (drop n xs)"
      by (simp add: batch_sampler_Cons)
    show ?thesis
    proof (cases i)
      case 0
      from "1.prems" eq have "batch_sampler n (drop n xs) \<noteq> []" by auto
      then have "drop n xs \<noteq> []" by auto
      then have "n < length xs" by simp
      with eq 0 show ?thesis by simp
    next
      case (Suc j)
      with "1.prems" eq have "Suc j < length (batch_sampler n (drop n xs))" by simp
      from "1.IH"[OF False this] eq Suc show ?thesis by simp
    qed
  qed
qed

lemma batch_sampler_last:
  "0 < n \<Longrightarrow> length xs mod n \<noteq> 0 \<Longrightarrow>
     length (last (batch_sampler n xs)) = length xs mod n"
proof (induction n xs rule: batch_sampler.induct)
  case (1 n xs)
  from "1.prems" have ne: "xs \<noteq> []" by auto
  with "1.prems" have eq: "batch_sampler n xs = take n xs # batch_sampler n (drop n xs)"
    by (simp add: batch_sampler_Cons)
  show ?case
  proof (cases "length xs \<le> n")
    case True
    with "1.prems" have "length xs < n" by (cases "length xs = n") auto
    with eq show ?thesis by simp
  next
    case False
    then have d: "drop n xs \<noteq> []" by simp
    with "1.prems" have "batch_sampler n (drop n xs) \<noteq> []"
      by (simp add: batch_sampler_Cons)
    with eq have l: "last (batch_sampler n xs) = last (batch_sampler n (drop n xs))" by simp
    from False have m: "length (drop n xs) mod n = length xs mod n"
      by (simp add: le_mod_geq)
    from "1.IH" "1.prems" ne m
    have "length (last (batch_sampler n (drop n xs))) = length (drop n xs) mod n" by simp
    with l m show ?thesis by simp
  qed
qed

lemma batch_sampler_even:
  "length xs mod n = 0 \<Longrightarrow> c \<in> set (batch_sampler n xs) \<Longrightarrow> length c = n"
proof (induction n xs rule: batch_sampler.induct)
  case (1 n xs)
  show ?case
  proof (cases "n = 0 \<or> xs = []")
    case True
    then have "batch_sampler n xs = []" by (subst batch_sampler.simps) simp
    with "1.prems" show ?thesis by simp
  next
    case False
    with "1.prems"(1) have ge: "n \<le> length xs"
      by (metis length_greater_0_conv mod_less not_le_imp_less not_less_zero)
    then have m: "length (drop n xs) mod n = 0"
      using "1.prems"(1) by (simp add: le_mod_geq)
    from False "1.prems"(2) have "c = take n xs \<or> c \<in> set (batch_sampler n (drop n xs))"
      by (simp add: batch_sampler_Cons)
    then show ?thesis
    proof
      assume "c = take n xs"
      with ge show ?thesis by simp
    next
      assume "c \<in> set (batch_sampler n (drop n xs))"
      with "1.IH" False m show ?thesis by simp
    qed
  qed
qed

lemma length_pad_row: "length (pad_row max_seq_len ids) = max_seq_len"
  by (simp add: pad_row_def)

lemma pad_to_seq_len_shapes:
  "has_shape (x_in (pad_to_seq_len max_seq_len samples)) (length samples, max_seq_len)"
  "has_shape (y_in (pad_to_seq_len max_seq_len samples)) (length samples, max_seq_len)"
  "has_shape (y_true (pad_to_seq_len max_seq_len samples)) (length samples, max_seq_len)"
  "length (x_lens (pad_to_seq_len max_seq_len samples)) = length samples"
  "length (y_lens (pad_to_seq_len max_seq_len samples)) = length samples"
  by (simp_all add: pad_to_seq_len_def has_shape_def list_all_iff length_pad_row
      case_prod_unfold)

lemma DataLoader_nth:
  assumes "i < length (DataLoader batch_size max_seq_len samples)"
  shows "DataLoader batch_size max_seq_len samples ! i =
           pad_to_seq_len max_seq_len (batch_sampler batch_size samples ! i)"
  using assms by (simp add: DataLoader_def)

lemma length_DataLoader:
  "length (DataLoader batch_size max_seq_len samples) = length (batch_sampler batch_size samples)"
  by (simp add: DataLoader_def)

subsection \<open>The loss\<close>

lemma set_target_positions:
  "set (target_positions targets) =
     {(i, j). i < length targets \<and> j < length (targets ! i) \<and> targets ! i ! j \<noteq> ignore_index}"
  by (auto simp: target_positions_def)

lemma distinct_indexed_concat:
  "distinct ks \<Longrightarrow> (\<And>i. distinct (g i)) \<Longrightarrow>
     distinct (concat (map (\<lambda>i. map (\<lambda>j. (i, j)) (g i)) ks))"
  by (induction ks) (auto simp: distinct_map inj_on_def)

lemma distinct_target_positions: "distinct (target_positions targets)"
  unfolding target_positions_def by (rule distinct_indexed_concat) simp_all

lemma sum_list_map_concat:
  "sum_list (map f (concat xss)) = (\<Sum>xs \<leftarrow> xss. sum_list (map f xs))"
  by (induction xss) simp_all

lemma sum_list_zip_nth:
  assumes "length xs = length ys"
  shows "sum_list (map f (zip xs ys)) = (\<Sum>i \<leftarrow> [0..<length ys]. f (xs ! i, ys ! i))"
proof -
  have "zip xs ys = map (\<lambda>i. (xs ! i, ys ! i)) [0..<length ys]"
    using assms by (intro nth_equalityI) simp_all
  then show ?thesis by (simp add: comp_def)
qed

lemma row_sum:
  assumes "length ps = length ts"
  shows "sum_list (map (\<lambda>(p, t). if t = ignore_index then 0 else g p t) (zip ps ts)) =
         (\<Sum>j \<leftarrow> filter (\<lambda>j. ts ! j \<noteq> ignore_index) [0..<length ts]. (g (ps ! j) (ts ! j) :: real))"
proof -
  have "sum_list (map (\<lambda>(p, t). if t = ignore_index then 0 else g p t) (zip ps ts)) =
        (\<Sum>j \<leftarrow> [0..<length ts]. if ts ! j = ignore_index then 0 else g (ps ! j) (ts ! j))"
    using assms by (simp add: sum_list_zip_nth)
  also have "\<dots> = (\<Sum>j \<leftarrow> [0..<length ts]. if ts ! j \<noteq> ignore_index then g (ps ! j) (ts ! j) else 0)"
    by (rule arg_cong[where f = sum_list]) simp
  also have "\<dots> = (\<Sum>j \<leftarrow> filter (\<lambda>j. ts ! j \<noteq> ignore_index) [0..<length ts]. g (ps ! j) (ts ! j))"
    by (rule sum_list_map_filter'[symmetric])
  finally show ?thesis .
qed

lemma same_shapeD:
  assumes "same_shape a b"
  shows "length a = length b" "i < length b \<Longrightarrow> length (a ! i) = length (b ! i)"
  using assms by (auto simp: same_shape_def list_all2_conv_all_nth)

lemma cross_entropy_sum_positions:
  assumes "same_shape y_pred targets"
  shows "cross_entropy_sum g y_pred targets =
         (\<Sum>(i, j) \<leftarrow> target_positions targets. g (y_pred ! i ! j) (targets ! i ! j))"
proof -
  let ?row = "\<lambda>i. (\<Sum>j \<leftarrow> filter (\<lambda>j. targets ! i ! j \<noteq> ignore_index) [0..<length (targets ! i)].
                      g (y_pred ! i ! j) (targets ! i ! j))"
  have "cross_entropy_sum g y_pred targets =
        (\<Sum>i \<leftarrow> [0..<length targets].
           sum_list (map (\<lambda>(p, t). if t = ignore_index then 0 else g p t)
                      (zip (y_pred ! i) (targets ! i))))"
    unfolding cross_entropy_sum_def
    using same_shapeD(1)[OF assms] by (simp add: sum_list_zip_nth)
  also have "\<dots> = (\<Sum>i \<leftarrow> [0..<length targets]. ?row i)"
  proof (rule arg_cong[where f = sum_list], rule map_cong[OF refl])
    fix i assume "i \<in> set [0..<length targets]"
    then have "length (y_pred ! i) = length (targets ! i)"
      using same_shapeD(2)[OF assms] by simp
    then show "sum_list (map (\<lambda>(p, t). if t = ignore_index then 0 else g p t)
                      (zip (y_pred ! i) (targets ! i))) = ?row i"
      by (rule row_sum)
  qed
  also have "\<dots> = (\<Sum>(i, j) \<leftarrow> target_positions targets. g (y_pred ! i ! j) (targets ! i ! j))"
    by (simp add: target_positions_def sum_list_map_concat comp_def)
  finally show ?thesis .
qed

lemma forward_loss_value:
  assumes "forward env training m b = Inr y_pred" "same_shape y_pred (y_true b)"
  shows "forward_loss env training m b =
         Inr (true_divide (Val (token_loss_sum (nll env) y_pred (y_true b))) (sum_list (y_lens b)))"
  using assms
  by (simp add: forward_loss_def criterion_same_shape token_loss_sum_def
      cross_entropy_sum_positions)

lemma forward_loss_cases:
  assumes "forward_loss env training m b = Inr l"
  obtains y_pred where "forward env training m b = Inr y_pred" "same_shape y_pred (y_true b)"
    "l = true_divide (Val (token_loss_sum (nll env) y_pred (y_true b))) (sum_list (y_lens b))"
proof -
  from assms obtain y_pred where f: "forward env training m b = Inr y_pred"
    by (auto simp: forward_loss_def split: sum.splits)
  with assms have sh: "same_shape y_pred (y_true b)"
    by (auto simp: forward_loss_def split: sum.splits dest: criterion_result(1))
  from forward_loss_value[OF f sh] assms
  have "l = true_divide (Val (token_loss_sum (nll env) y_pred (y_true b))) (sum_list (y_lens b))"
    by simp
  with f sh show ?thesis by (rule that)
qed

lemma forward_loss_mean:
  assumes "forward env training m b = Inr y_pred" "same_shape y_pred (y_true b)"
    and "sum_list (y_lens b) \<noteq> 0"
  shows "forward_loss env training m b =
         Inr (Val (token_loss_sum (nll env) y_pred (y_true b) / real (sum_list (y_lens b))))"
  using forward_loss_value[OF assms(1,2)] assms(3) by simp

lemma length_filter_upt:
  "length (filter (\<lambda>j. P (row ! j)) [0..<length row]) = length (filter P row)"
  by (simp add: length_filter_conv_card cong: conj_cong)

lemma length_target_positions:
  "length (target_positions targets) =
     sum_list (map (\<lambda>row. length (filter (\<lambda>t. t \<noteq> ignore_index) row)) targets)"
proof -
  have "length (target_positions targets) =
      (\<Sum>i \<leftarrow> [0..<length targets].
         length (filter (\<lambda>j. targets ! i ! j \<noteq> ignore_index) [0..<length (targets ! i)]))"
    by (simp add: target_positions_def length_concat comp_def)
  also have "\<dots> = (\<Sum>i \<leftarrow> [0..<length targets].
         length (filter (\<lambda>t. t \<noteq> ignore_index) (targets ! i)))"
    by (simp add: length_filter_upt[where P = "\<lambda>t. t \<noteq> ignore_index"])
  also have "\<dots> = sum_list (map (\<lambda>row. length (filter (\<lambda>t. t \<noteq> ignore_index) row))
                          (map (\<lambda>i. targets ! i) [0..<length targets]))"
    by (simp add: comp_def)
  also have "map (\<lambda>i. targets ! i) [0..<length targets] = targets" by (rule map_nth)
  finally show ?thesis .
qed

lemma lens_count_targets_sum:
  "lens_count_targets b \<Longrightarrow> sum_list (y_lens b) = length (target_positions (y_true b))"
  by (simp add: lens_count_targets_def length_target_positions)

text \<open>
  The batches of the collator are of that kind when no example is truncated: when the
  label sequence of every example is as long as its target input, no longer than the
  maximum length, and free of the padding id. An example that is longer than the maximum
  length keeps its unpadded length in \<open>y_lens\<close> while its row is cut, so the sum of
  the lengths then exceeds the number of positions summed over.
\<close>

lemma collated_lens_count_targets:
  assumes "\<forall>(src, tgt_in, tgt_out) \<in> set samples.
             length tgt_in = length tgt_out \<and> length tgt_out \<le> max_seq_len \<and>
             ignore_index \<notin> set tgt_out"
  shows "lens_count_targets (pad_to_seq_len max_seq_len samples)"
proof -
  have "length tgt_in =
        length (filter (\<lambda>t. t \<noteq> ignore_index) (pad_row max_seq_len tgt_out))"
    if "(src, tgt_in, tgt_out) \<in> set samples" for src tgt_in tgt_out
  proof -
    from assms that have l: "length tgt_in = length tgt_out" "length tgt_out \<le> max_seq_len"
      and z: "ignore_index \<notin> set tgt_out" by auto
    from z have "filter (\<lambda>t. t \<noteq> ignore_index) tgt_out = tgt_out"
      by (auto simp: filter_id_conv)
    with l show ?thesis by (simp add: pad_row_def ignore_index_def)
  qed
  then show ?thesis
    by (auto simp: lens_count_targets_def pad_to_seq_len_def)
qed

lemma truncated_lens_exceed_targets:
  "y_true (pad_to_seq_len 3 demo_samples) = [[7, 3, 0], [9, 4, 6], [3, 0, 0]] \<and>
   y_lens (pad_to_seq_len 3 demo_samples) = [2, 4, 1] \<and>
   length (target_positions (y_true (pad_to_seq_len 3 demo_samples))) = 6 \<and>
   sum_list (y_lens (pad_to_seq_len 3 demo_samples)) = 7"
  by (simp add: length_target_positions)
    (simp add: pad_to_seq_len_def demo_samples_def pad_row_def ignore_index_def numeral_2_eq_2)

lemma eval_loop_result:
  "eval_loop env cfg m idx items acc = Inr ls \<Longrightarrow>
     \<exists>ls'. ls = acc @ ls' \<and>
           length ls' = min (length items) (Suc (EVAL_STEPS cfg - idx)) \<and>
           list_all2 (\<lambda>it l. \<exists>b. it = Inr b \<and> forward_loss env False m b = Inr l)
             (take (length ls') items) ls'"
proof (induction env cfg m idx items acc rule: eval_loop.induct)
  case (1 env cfg m idx eval_losses)
  then show ?case by simp
next
  case (2 env cfg m idx e rest eval_losses)
  then show ?case by simp
next
  case (3 env cfg m idx b rest eval_losses)
  from "3.prems" obtain loss where fl: "forward_loss env False m b = Inr loss"
    by (auto split: sum.splits)
  show ?case
  proof (cases "EVAL_STEPS cfg \<le> idx")
    case True
    with "3.prems" fl have "ls = eval_losses @ [loss]" by simp
    with True fl show ?thesis by (intro exI[of _ "[loss]"]) simp
  next
    case False
    with "3.prems" fl have "eval_loop env cfg m (idx + 1) rest (eval_losses @ [loss]) = Inr ls"
      by simp
    from "3.IH"[OF fl False this] obtain ls' where
      l: "ls = (eval_losses @ [loss]) @ ls'" and
      n: "length ls' = min (length rest) (Suc (EVAL_STEPS cfg - (idx + 1)))" and
      a: "list_all2 (\<lambda>it l. \<exists>b. it = Inr b \<and> forward_loss env False m b = Inr l)
             (take (length ls') rest) ls'"
      by blast
    from False have "Suc (EVAL_STEPS cfg - (idx + 1)) = EVAL_STEPS cfg - idx" by arith
    with n have "length (loss # ls') =
        min (length (Inr b # rest)) (Suc (EVAL_STEPS cfg - idx))" by simp
    with l a fl show ?thesis by (intro exI[of _ "loss # ls'"]) simp
  qed
qed

lemma last_py_last_n: "last (py_last_n n (xs @ [x])) = x"
  by (simp add: py_last_n_def)

lemma py_last_n_nonempty: "py_last_n n (xs @ [x]) \<noteq> []"
  by (simp add: py_last_n_def)

lemma train_step_loss:
  assumes "train_step env cfg s = Inr (s', brk)"
  shows "\<exists>b s1 l. draw_batch env (s\<lparr>global_step := global_step s + 1\<rparr>) = Inr (b, s1) \<and>
                  forward_loss env True (model s1) b = Inr l \<and>
                  windowed_losses s' \<noteq> [] \<and> last (windowed_losses s') = l"
  using assms
proof (rule train_step_cases)
  fix b s1 loss m'
  assume d: "draw_batch env (s\<lparr>global_step := global_step s + 1\<rparr>) = Inr (b, s1)"
    and fl: "forward_loss env True (model s1) b = Inr loss"
    and ev: "global_step s1 mod EVAL_EVERY cfg = 0 \<Longrightarrow>
       evaluation env cfg
         (record_loss cfg loss (scheduler_phase env cfg (s1\<lparr>model := m'\<rparr>))) loss
       = Inr (s', brk)"
    and nev: "global_step s1 mod EVAL_EVERY cfg \<noteq> 0 \<Longrightarrow>
       s' = record_loss cfg loss (scheduler_phase env cfg (s1\<lparr>model := m'\<rparr>)) \<and> \<not> brk"
  let ?s3 = "record_loss cfg loss (scheduler_phase env cfg (s1\<lparr>model := m'\<rparr>))"
  have w3: "windowed_losses ?s3 \<noteq> [] \<and> last (windowed_losses ?s3) = loss"
    by (simp add: record_loss_def last_py_last_n py_last_n_nonempty)
  have "windowed_losses s' = windowed_losses ?s3"
  proof (cases "global_step s1 mod EVAL_EVERY cfg = 0")
    case True
    from evaluation_fields(6)[OF ev[OF True]] show ?thesis .
  next
    case False
    from nev[OF False] show ?thesis by simp
  qed
  with w3 d fl show ?thesis by auto
qed

lemma demo_forward: "forward demo_env training m b = Inr (map (map (\<lambda>t. ())) (y_true b))"
  by (simp add: demo_env_def)

lemma demo_target_positions:
  "target_positions (y_true demo_batch) = [(0, 0), (0, 1), (1, 0), (1, 1), (1, 2)]"
proof -
  have u: "[0..<2] = [0, 1]" "[0..<3] = [0, 1, 2]" by (simp_all add: upt_rec)
  have y: "y_true demo_batch = [[7, 3, 0], [9, 4, 3]]" by (simp add: demo_batch_def)
  show ?thesis by (simp add: target_positions_def y u ignore_index_def)
qed

lemma demo_token_loss_sum: "token_loss_sum (nll demo_env) y_pred (y_true demo_batch) = 5"
  by (simp add: token_loss_sum_def demo_target_positions) (simp add: demo_env_def)

lemma demo_forward_loss: "forward_loss demo_env training m demo_batch = Inr (Val 1)"
  using forward_loss_value[OF demo_forward same_shape_map, of training m demo_batch]
  by (simp add: demo_token_loss_sum) (simp add: demo_batch_def)

lemma demo_eval_loop:
  "eval_loop demo_env demo_config m 0 (valid_dataloader demo_env) [] = Inr [Val 1, Val 1]"
proof -
  have v: "valid_dataloader demo_env = [Inr demo_batch, Inr demo_batch, Inr demo_batch]"
    by (simp add: demo_env_def)
  have e: "EVAL_STEPS demo_config = 1" by (simp add: demo_config_def)
  show ?thesis by (simp add: v e demo_forward_loss)
qed

subsection \<open>A run of four steps\<close>

text \<open>
  The small environment, executed: each step computed from the definitions.
\<close>

lemma demo_env_fields:
  "train_dataloader demo_env k = [Inr demo_batch, Inr demo_batch]"
  "optimizer_update demo_env m b l = Inr (Suc m)"
  "scheduler_step demo_env sch = (Suc sch, None)"
  "infer_samples demo_env m = None"
  "torch_save demo_env name = None"
  by (simp_all add: demo_env_def)

lemma demo_config_fields:
  "MAX_STEPS demo_config = 4" "EVAL_EVERY demo_config = 2" "EVAL_STEPS demo_config = 1"
  "WARM_STEPS demo_config = 1" "COOL_STEPS demo_config = 3" "LOSS_WIN demo_config = 32"
  "VOCAB_SIZE demo_config = 16000" "BATCH_SIZE demo_config = 16"
  "DEMO_JUST_ONE_ITRE demo_config = False" "total_steps demo_config = 4"
  by (simp_all add: demo_config_def notebook_config_def total_steps_def)

lemma demo_step_1:
  "train_step demo_env demo_config (init_state demo_env 0 0) = Inr (demo_state_1, False)"
  by (simp add: train_step_def draw_batch_def init_state_def demo_env_fields demo_forward_loss
      scheduler_phase_def record_loss_def py_last_n_def demo_config_fields demo_state_1_def)

lemma demo_step_2:
  "train_step demo_env demo_config demo_state_1 = Inr (demo_state_2, False)"
  by (simp add: train_step_def draw_batch_def demo_state_1_def demo_env_fields
      demo_forward_loss scheduler_phase_def record_loss_def py_last_n_def demo_config_fields
      evaluation_def demo_eval_loop np_mean_def demo_state_2_def numeral_2_eq_2)

lemma demo_step_3:
  "train_step demo_env demo_config demo_state_2 = Inr (demo_state_3, False)"
  by (simp add: train_step_def draw_batch_def demo_state_2_def demo_env_fields
      demo_forward_loss scheduler_phase_def record_loss_def py_last_n_def demo_config_fields
      demo_state_3_def numeral_3_eq_3)

lemma demo_step_4:
  "train_step demo_env demo_config demo_state_3 = Inr (demo_state_4, False)"
  by (simp add: train_step_def draw_batch_def demo_state_3_def demo_state_2_def
      demo_env_fields demo_forward_loss scheduler_phase_def record_loss_def py_last_n_def
      demo_config_fields evaluation_def demo_eval_loop np_mean_def demo_state_4_def)

lemma demo_global_steps:
  "global_step (init_state env m0 sch0) = 0" "global_step demo_state_1 = 1"
  "global_step demo_state_2 = 2" "global_step demo_state_3 = 3" "global_step demo_state_4 = 4"
  by (simp_all add: init_state_def demo_state_1_def demo_state_2_def demo_state_3_def
      demo_state_4_def)

lemma demo_run_steps:
  "run_steps demo_env demo_config 2 (init_state demo_env 0 0) = Inr (demo_state_2, False)"
  "run_steps demo_env demo_config 3 (init_state demo_env 0 0) = Inr (demo_state_3, False)"
  "run_steps demo_env demo_config 4 (init_state demo_env 0 0) = Inr (demo_state_4, False)"
proof -
  have n: "(2::nat) = Suc (Suc 0)" "(3::nat) = Suc (Suc (Suc 0))"
    "(4::nat) = Suc (Suc (Suc (Suc 0)))" by simp_all
  have r1: "run_steps demo_env demo_config (Suc n) (init_state demo_env 0 0)
      = run_steps demo_env demo_config n demo_state_1" for n
    by (simp add: demo_global_steps demo_config_fields demo_step_1)
  have r2: "run_steps demo_env demo_config (Suc n) demo_state_1
      = run_steps demo_env demo_config n demo_state_2" for n
    by (simp add: demo_global_steps demo_config_fields demo_step_2)
  have r3: "run_steps demo_env demo_config (Suc n) demo_state_2
      = run_steps demo_env demo_config n demo_state_3" for n
    by (simp add: demo_global_steps demo_config_fields demo_step_3)
  have r4: "run_steps demo_env demo_config (Suc n) demo_state_3
      = run_steps demo_env demo_config n demo_state_4" for n
    by (simp add: demo_global_steps demo_config_fields demo_step_4)
  show "run_steps demo_env demo_config 2 (init_state demo_env 0 0) = Inr (demo_state_2, False)"
    unfolding n(1) by (simp only: r1 r2 run_steps.simps(1))
  show "run_steps demo_env demo_config 3 (init_state demo_env 0 0) = Inr (demo_state_3, False)"
    unfolding n(2) by (simp only: r1 r2 r3 run_steps.simps(1))
  show "run_steps demo_env demo_config 4 (init_state demo_env 0 0) = Inr (demo_state_4, False)"
    unfolding n(3) by (simp only: r1 r2 r3 r4 run_steps.simps(1))
qed

lemma demo_train_loop:
  "train_loop demo_env demo_config (init_state demo_env 0 0) = Inr demo_state_4"
proof -
  have "train_loop demo_env demo_config demo_state_4 = Inr demo_state_4"
    by (subst train_loop.simps) (simp add: demo_global_steps demo_config_fields)
  then have "train_loop demo_env demo_config demo_state_3 = Inr demo_state_4"
    by (subst train_loop.simps) (simp add: demo_global_steps demo_config_fields demo_step_4)
  then have "train_loop demo_env demo_config demo_state_2 = Inr demo_state_4"
    by (subst train_loop.simps) (simp add: demo_global_steps demo_config_fields demo_step_3)
  then have "train_loop demo_env demo_config demo_state_1 = Inr demo_state_4"
    by (subst train_loop.simps) (simp add: demo_global_steps demo_config_fields demo_step_2)
  then show ?thesis
    by (subst train_loop.simps) (simp add: demo_global_steps demo_config_fields demo_step_1)
qed

subsection \<open>A batch without valid target tokens\<close>

lemma zero_token_forward_loss:
  "forward_loss demo_env training m zero_token_batch = Inr NaN"
  by (simp add: forward_loss_def criterion_def demo_env_def zero_token_batch_def
      same_shape_def cross_entropy_sum_def ignore_index_def)

subsection \<open>The evaluation loop\<close>




text \<open>
  The loop tests \<open>idx >= EVAL_STEPS\<close> after it has appended the loss of batch
  \<open>idx\<close>: with \<open>EVAL_STEPS = 1\<close> and three validation batches it evaluates two.
\<close>

lemma eval_loop_one_more_example:
  "EVAL_STEPS demo_config = 1 \<and> length (valid_dataloader demo_env) = 3 \<and>
   eval_loop demo_env demo_config 0 0 (valid_dataloader demo_env) [] = Inr [Val 1, Val 1]"
  by (simp add: demo_eval_loop) (simp add: demo_config_def demo_env_def)

subsection \<open>Exhaustion of the training iterator\<close>

lemma draw_batch_recovers:
  assumes "next_item (train_iterator s) = Inl StopIteration"
    and "next_item (train_dataloader env (epoch s + 1)) = Inr (b, rest)"
  shows "draw_batch env s = Inr (b, s\<lparr>epoch := epoch s + 1, train_iterator := rest\<rparr>)"
  using assms by (simp add: draw_batch_def)

lemma draw_batch_empty_loader:
  assumes "next_item (train_iterator s) = Inl StopIteration"
    and "train_dataloader env (epoch s + 1) = []"
  shows "draw_batch env s = Inl StopIteration"
  using assms by (simp add: draw_batch_def)

lemma train_step_after_draw:
  assumes "draw_batch env (s\<lparr>global_step := global_step s + 1\<rparr>) = Inr (b, s1)"
    and "draw_batch env (t\<lparr>global_step := global_step t + 1\<rparr>) = Inr (b, s1)"
  shows "train_step env cfg s = train_step env cfg t"
  using assms by (simp add: train_step_def)

lemma train_step_epoch:
  assumes "train_step env cfg s = Inr (s', brk)"
    and "draw_batch env (s\<lparr>global_step := global_step s + 1\<rparr>) = Inr (b, s1)"
  shows "epoch s' = epoch s1" "train_iterator s' = train_iterator s1"
  using assms(1)
proof (atomize (full), rule train_step_cases)
  fix b' s1' loss m'
  assume d: "draw_batch env (s\<lparr>global_step := global_step s + 1\<rparr>) = Inr (b', s1')"
    and ev: "global_step s1' mod EVAL_EVERY cfg = 0 \<Longrightarrow>
       evaluation env cfg
         (record_loss cfg loss (scheduler_phase env cfg (s1'\<lparr>model := m'\<rparr>))) loss
       = Inr (s', brk)"
    and nev: "global_step s1' mod EVAL_EVERY cfg \<noteq> 0 \<Longrightarrow>
       s' = record_loss cfg loss (scheduler_phase env cfg (s1'\<lparr>model := m'\<rparr>)) \<and> \<not> brk"
  from d assms(2) have e: "s1' = s1" by simp
  let ?s3 = "record_loss cfg loss (scheduler_phase env cfg (s1\<lparr>model := m'\<rparr>))"
  have s3: "epoch ?s3 = epoch s1" "train_iterator ?s3 = train_iterator s1"
    by (simp_all add: record_loss_fields scheduler_phase_fields)
  show "epoch s' = epoch s1 \<and> train_iterator s' = train_iterator s1"
  proof (cases "global_step s1 mod EVAL_EVERY cfg = 0")
    case True
    from evaluation_fields(4,5)[OF ev[unfolded e, OF True]] s3 show ?thesis by simp
  next
    case False
    from nev[unfolded e, OF False] s3 show ?thesis by simp
  qed
qed

subsection \<open>Exceptions in a training step\<close>

lemma train_step_draw_error:
  assumes "draw_batch env (s\<lparr>global_step := global_step s + 1\<rparr>) = Inl e"
  shows "train_step env cfg s = Inl e"
  using assms by (simp add: train_step_def)

lemma draw_batch_error_iff:
  "draw_batch env s = Inl e \<longleftrightarrow>
     (next_item (train_iterator s) = Inl e \<and> e \<noteq> StopIteration) \<or>
     (next_item (train_iterator s) = Inl StopIteration \<and>
      next_item (train_dataloader env (epoch s + 1)) = Inl e)"
  by (auto simp: draw_batch_def split: sum.splits)

lemma forward_loss_criterion_error:
  "forward env training m b = Inr y_pred \<Longrightarrow> criterion (nll env) y_pred (y_true b) = Inl e \<Longrightarrow>
     forward_loss env training m b = Inl e"
  by (simp add: forward_loss_def)

lemma next_item_error_draw:
  "next_item (train_iterator s) = Inl e \<Longrightarrow> e \<noteq> StopIteration \<Longrightarrow>
     draw_batch env (s\<lparr>global_step := g\<rparr>) = Inl e"
  "next_item (train_iterator s) = Inl StopIteration \<Longrightarrow>
     next_item (train_dataloader env (epoch s + 1)) = Inl e \<Longrightarrow>
     draw_batch env (s\<lparr>global_step := g\<rparr>) = Inl e"
  by (simp_all add: draw_batch_def)

lemma forward_loss_forward_error:
  "forward env training m b = Inl e \<Longrightarrow> forward_loss env training m b = Inl e"
  by (simp add: forward_loss_def)

lemma train_step_forward_error:
  assumes "draw_batch env (s\<lparr>global_step := global_step s + 1\<rparr>) = Inr (b, s1)"
    and "forward_loss env True (model s1) b = Inl e"
  shows "train_step env cfg s = Inl e"
  using assms by (simp add: train_step_def)

lemma train_step_optimizer_error:
  assumes "draw_batch env (s\<lparr>global_step := global_step s + 1\<rparr>) = Inr (b, s1)"
    and "forward_loss env True (model s1) b = Inr l"
    and "optimizer_update env (model s1) b l = Inl e"
  shows "train_step env cfg s = Inl e"
  using assms by (simp add: train_step_def)

lemma train_step_evaluation_error:
  assumes "draw_batch env (s\<lparr>global_step := global_step s + 1\<rparr>) = Inr (b, s1)"
    and "forward_loss env True (model s1) b = Inr l"
    and "optimizer_update env (model s1) b l = Inr m'"
    and "EVAL_EVERY cfg \<noteq> 0" "Suc (global_step s) mod EVAL_EVERY cfg = 0"
    and "evaluation env cfg (record_loss cfg l (scheduler_phase env cfg (s1\<lparr>model := m'\<rparr>))) l
           = Inl e"
  shows "train_step env cfg s = Inl e"
  using assms draw_batch_global_step[OF assms(1)]
  by (simp add: train_step_def Let_def record_loss_global_step scheduler_phase_global_step)

lemma evaluation_errors:
  "eval_loop env cfg (model t) 0 (valid_dataloader env) [] = Inl e \<Longrightarrow>
     evaluation env cfg t l = Inl e"
  "eval_loop env cfg (model t) 0 (valid_dataloader env) [] = Inr ls \<Longrightarrow>
     infer_samples env (model t) = Some e \<Longrightarrow> evaluation env cfg t l = Inl e"
  "eval_loop env cfg (model t) 0 (valid_dataloader env) [] = Inr ls \<Longrightarrow>
     infer_samples env (model t) = None \<Longrightarrow>
     torch_save env (checkpoint_name (VOCAB_SIZE cfg) (global_step t)) = Some e \<Longrightarrow>
     evaluation env cfg t l = Inl e"
  by (simp_all add: evaluation_def)

lemma train_loop_propagates:
  assumes "global_step s < MAX_STEPS cfg" "train_step env cfg s = Inl e"
  shows "train_loop env cfg s = Inl e"
  using assms by (subst train_loop.simps) simp

lemma forward_loss_same:
  "forward env' = forward env \<Longrightarrow> nll env' = nll env \<Longrightarrow>
     forward_loss env' training m b = forward_loss env training m b"
  by (simp add: forward_loss_def cong: sum.case_cong)

lemma raises_nothing_scheduler:
  "raises_nothing (env\<lparr>scheduler_step := f\<rparr>) = raises_nothing env"
  by (simp add: raises_nothing_def calls_ok_def)

lemma demo_like_forward_loss:
  assumes "forward env = forward demo_env" "nll env = nll demo_env"
  shows "forward_loss env training m demo_batch = Inr (Val 1)"
  using forward_loss_same[OF assms] demo_forward_loss by simp

lemma demo_like_eval_loop:
  assumes "forward env = forward demo_env" "nll env = nll demo_env"
    and "valid_dataloader env = valid_dataloader demo_env" "EVAL_STEPS cfg = 1"
  shows "eval_loop env cfg m 0 (valid_dataloader env) [] = Inr [Val 1, Val 1]"
proof -
  have v: "valid_dataloader env = [Inr demo_batch, Inr demo_batch, Inr demo_batch]"
    using assms(3) by (simp add: demo_env_def)
  show ?thesis by (simp add: v assms(4) demo_like_forward_loss[OF assms(1,2)])
qed

lemma demo_like_draw:
  assumes "train_dataloader env = train_dataloader demo_env"
  shows "draw_batch env ((init_state env m0 sch0)\<lparr>global_step :=
            global_step (init_state env m0 sch0) + 1\<rparr>) =
         Inr (demo_batch, (init_state env m0 sch0)\<lparr>global_step := 1,
                train_iterator := [Inr demo_batch]\<rparr>)"
  using assms by (simp add: draw_batch_def init_state_def demo_env_def)

subsection \<open>A step and an evaluation with losses that differ\<close>

lemma weighted_env_fields:
  "train_dataloader weighted_env k = [Inr demo_batch, Inr demo_batch]"
  "valid_dataloader weighted_env = [Inr demo_batch, Inr short_batch, Inr demo_batch]"
  "forward weighted_env training m b = Inr (map (map (\<lambda>t. ())) (y_true b))"
  "nll weighted_env p t = real t"
  "optimizer_update weighted_env m b l = Inr (Suc m)"
  "scheduler_step weighted_env sch = (Suc sch, None)"
  "infer_samples weighted_env m = None"
  "torch_save weighted_env name = None"
  by (simp_all add: weighted_env_def demo_env_def)

lemma short_target_positions: "target_positions (y_true short_batch) = [(0, 0), (0, 1)]"
proof -
  have u: "[0..<3] = [0, 1, 2]" by (simp add: upt_rec)
  have y: "y_true short_batch = [[8, 3, 0]]" by (simp add: short_batch_def)
  show ?thesis by (simp add: target_positions_def y u ignore_index_def)
qed

lemma weighted_token_loss_sum:
  "token_loss_sum (nll weighted_env) y_pred (y_true demo_batch) = 26"
  "token_loss_sum (nll weighted_env) y_pred (y_true short_batch) = 11"
  by (simp_all add: token_loss_sum_def demo_target_positions short_target_positions
      weighted_env_fields)
    (simp_all add: demo_batch_def short_batch_def)

lemma weighted_forward_loss:
  "forward_loss weighted_env training m demo_batch = Inr (Val (26 / 5))"
  "forward_loss weighted_env training m short_batch = Inr (Val (11 / 2))"
proof -
  have n: "sum_list (y_lens demo_batch) = 5" "sum_list (y_lens short_batch) = 2"
    by (simp_all add: demo_batch_def short_batch_def)
  show "forward_loss weighted_env training m demo_batch = Inr (Val (26 / 5))"
    using forward_loss_mean[OF weighted_env_fields(3) same_shape_map, of demo_batch training m]
    by (simp add: n weighted_token_loss_sum)
  show "forward_loss weighted_env training m short_batch = Inr (Val (11 / 2))"
    using forward_loss_mean[OF weighted_env_fields(3) same_shape_map, of short_batch training m]
    by (simp add: n weighted_token_loss_sum)
qed

lemma weighted_step_1:
  "train_step weighted_env notebook_config (init_state weighted_env 0 0)
     = Inr (weighted_state_1, False)"
proof -
  have c: "WARM_STEPS notebook_config = 5000" "COOL_STEPS notebook_config = 195000"
    "EVAL_EVERY notebook_config = 25000" "LOSS_WIN notebook_config = 32"
    by (simp_all add: notebook_config_def)
  show ?thesis
    by (simp add: train_step_def draw_batch_def init_state_def weighted_env_fields
        weighted_forward_loss scheduler_phase_def record_loss_def py_last_n_def c
        weighted_state_1_def)
qed

lemma weighted_eval_loop:
  "eval_loop weighted_env step_config m 0 (valid_dataloader weighted_env) []
     = Inr [Val (26 / 5), Val (11 / 2)]"
  "eval_loop weighted_env notebook_config m 0 (valid_dataloader weighted_env) []
     = Inr [Val (26 / 5), Val (11 / 2), Val (26 / 5)]"
proof -
  have e: "EVAL_STEPS step_config = 1" "EVAL_STEPS notebook_config = 1000"
    by (simp_all add: step_config_def notebook_config_def)
  show "eval_loop weighted_env step_config m 0 (valid_dataloader weighted_env) []
     = Inr [Val (26 / 5), Val (11 / 2)]"
    by (simp add: weighted_env_fields weighted_forward_loss e)
  show "eval_loop weighted_env notebook_config m 0 (valid_dataloader weighted_env) []
     = Inr [Val (26 / 5), Val (11 / 2), Val (26 / 5)]"
    by (simp add: weighted_env_fields weighted_forward_loss e)
qed


section \<open>The claims\<close>

subsection \<open>The loss is normalised by the token count\<close>

text \<open>
  Claim C1. Whenever the forward pass returns a prediction tensor of the target's shape,
  in training or in evaluation mode, the loss is the cross entropy summed over the
  positions whose target is not the padding id 0, divided by the sum of the per-example
  target lengths \<open>y_lens\<close> (not by the number of examples); a sum of zero is the
  matter of claim C2. In a batch whose target lengths record the label ids that are not
  padding, that divisor is the number of positions summed over, so the loss is the mean
  cross entropy per valid target token. This is the loss a training step records for the
  batch it drew, and the loss the evaluation loop records for each validation batch it
  processes.
\<close>

theorem loss_normalised_by_token_count:
  "(forward env training m b = Inr y_pred \<and> same_shape y_pred (y_true b) \<and>
    sum_list (y_lens b) \<noteq> 0 \<longrightarrow>
      forward_loss env training m b =
        Inr (Val (token_loss_sum (nll env) y_pred (y_true b) / real (sum_list (y_lens b))))) \<and>
   (lens_count_targets b \<longrightarrow> sum_list (y_lens b) = length (target_positions (y_true b))) \<and>
   (train_step env cfg s = Inr (s', brk) \<longrightarrow>
      (\<exists>tb s1 tp. draw_batch env (s\<lparr>global_step := global_step s + 1\<rparr>) = Inr (tb, s1) \<and>
                   forward env True (model s1) tb = Inr tp \<and>
                   (sum_list (y_lens tb) \<noteq> 0 \<longrightarrow>
                      last (windowed_losses s') =
                        Val (token_loss_sum (nll env) tp (y_true tb) /
                             real (sum_list (y_lens tb)))))) \<and>
   (eval_loop env cfg m 0 items [] = Inr ls \<longrightarrow>
      list_all2 (\<lambda>it l. \<exists>vb vp. it = Inr vb \<and> forward env False m vb = Inr vp \<and>
                   (sum_list (y_lens vb) \<noteq> 0 \<longrightarrow>
                      l = Val (token_loss_sum (nll env) vp (y_true vb) /
                               real (sum_list (y_lens vb)))))
        (take (length ls) items) ls)"
proof (intro conjI impI)
  assume "forward env training m b = Inr y_pred \<and> same_shape y_pred (y_true b) \<and>
    sum_list (y_lens b) \<noteq> 0"
  then show "forward_loss env training m b =
        Inr (Val (token_loss_sum (nll env) y_pred (y_true b) / real (sum_list (y_lens b))))"
    by (simp add: forward_loss_mean)
next
  assume "lens_count_targets b"
  then show "sum_list (y_lens b) = length (target_positions (y_true b))"
    by (rule lens_count_targets_sum)
next
  assume "train_step env cfg s = Inr (s', brk)"
  from train_step_loss[OF this] obtain tb s1 l where
    d: "draw_batch env (s\<lparr>global_step := global_step s + 1\<rparr>) = Inr (tb, s1)" and
    fl: "forward_loss env True (model s1) tb = Inr l" and w: "last (windowed_losses s') = l"
    by blast
  from fl obtain tp where f: "forward env True (model s1) tb = Inr tp" and
    l: "l = true_divide (Val (token_loss_sum (nll env) tp (y_true tb))) (sum_list (y_lens tb))"
    by (rule forward_loss_cases)
  from l w have "sum_list (y_lens tb) \<noteq> 0 \<longrightarrow>
      last (windowed_losses s') =
        Val (token_loss_sum (nll env) tp (y_true tb) / real (sum_list (y_lens tb)))"
    by simp
  with d f show "\<exists>tb s1 tp. draw_batch env (s\<lparr>global_step := global_step s + 1\<rparr>) = Inr (tb, s1) \<and>
                   forward env True (model s1) tb = Inr tp \<and>
                   (sum_list (y_lens tb) \<noteq> 0 \<longrightarrow>
                      last (windowed_losses s') =
                        Val (token_loss_sum (nll env) tp (y_true tb) /
                             real (sum_list (y_lens tb))))" by blast
next
  assume "eval_loop env cfg m 0 items [] = Inr ls"
  from eval_loop_result[OF this] obtain ls' where
    "ls = [] @ ls'" and
    "list_all2 (\<lambda>it l. \<exists>b. it = Inr b \<and> forward_loss env False m b = Inr l)
             (take (length ls') items) ls'" by blast
  then have "list_all2 (\<lambda>it l. \<exists>b. it = Inr b \<and> forward_loss env False m b = Inr l)
             (take (length ls) items) ls" by simp
  then show "list_all2 (\<lambda>it l. \<exists>vb vp. it = Inr vb \<and> forward env False m vb = Inr vp \<and>
                   (sum_list (y_lens vb) \<noteq> 0 \<longrightarrow>
                      l = Val (token_loss_sum (nll env) vp (y_true vb) /
                               real (sum_list (y_lens vb)))))
        (take (length ls) items) ls"
  proof (rule list_all2_mono)
    fix it l
    assume "\<exists>b. it = Inr b \<and> forward_loss env False m b = Inr l"
    then obtain vb where i: "it = Inr vb" and "forward_loss env False m vb = Inr l" by blast
    from this(2) obtain vp where f: "forward env False m vb = Inr vp" and
      l: "l = true_divide (Val (token_loss_sum (nll env) vp (y_true vb))) (sum_list (y_lens vb))"
      by (rule forward_loss_cases)
    from l have "sum_list (y_lens vb) \<noteq> 0 \<longrightarrow>
        l = Val (token_loss_sum (nll env) vp (y_true vb) / real (sum_list (y_lens vb)))"
      by simp
    with i f show "\<exists>vb vp. it = Inr vb \<and> forward env False m vb = Inr vp \<and>
                   (sum_list (y_lens vb) \<noteq> 0 \<longrightarrow>
                      l = Val (token_loss_sum (nll env) vp (y_true vb) /
                               real (sum_list (y_lens vb))))" by blast
  qed
qed

theorem loss_normalised_by_token_count_witness:
  "forward weighted_env True 0 demo_batch = Inr [[(), (), ()], [(), (), ()]] \<and>
   same_shape [[(), (), ()], [(), (), ()]] (y_true demo_batch) \<and>
   target_positions (y_true demo_batch) = [(0, 0), (0, 1), (1, 0), (1, 1), (1, 2)] \<and>
   token_loss_sum (nll weighted_env) [[(), (), ()], [(), (), ()]] (y_true demo_batch) = 26 \<and>
   lens_count_targets demo_batch \<and>
   sum_list (y_lens demo_batch) = 5 \<and> length (y_lens demo_batch) = 2 \<and>
   forward_loss weighted_env True 0 demo_batch = Inr (Val (26 / 5)) \<and>
   Val (26 / 5) \<noteq> Val (26 / 2) \<and>
   train_step weighted_env notebook_config (init_state weighted_env 0 0)
     = Inr (weighted_state_1, False) \<and>
   last (windowed_losses weighted_state_1) = Val (26 / 5) \<and>
   eval_loop weighted_env step_config 0 0 (valid_dataloader weighted_env) []
     = Inr [Val (26 / 5), Val (11 / 2)] \<and>
   sum_list (y_lens short_batch) = 2 \<and>
   token_loss_sum (nll weighted_env) [[(), (), ()]] (y_true short_batch) = 11"
proof -
  let ?p = "[[(), (), ()], [(), (), ()]]"
  have f: "forward weighted_env True 0 demo_batch = Inr ?p"
    by (simp add: weighted_env_fields demo_batch_def)
  have sh: "same_shape ?p (y_true demo_batch)"
    by (simp add: same_shape_def demo_batch_def)
  have n: "sum_list (y_lens demo_batch) = 5" "length (y_lens demo_batch) = 2"
    "sum_list (y_lens short_batch) = 2"
    by (simp_all add: demo_batch_def short_batch_def)
  have lc: "lens_count_targets demo_batch"
    by (simp add: lens_count_targets_def demo_batch_def ignore_index_def)
  note inst = loss_normalised_by_token_count[of weighted_env True 0 demo_batch ?p
      notebook_config "init_state weighted_env 0 0" weighted_state_1 False
      "valid_dataloader weighted_env" "[Val (26 / 5), Val (11 / 2)]"]
  from inst[THEN conjunct1] f sh n(1)
  have fl: "forward_loss weighted_env True 0 demo_batch = Inr (Val (26 / 5))"
    by (simp add: weighted_token_loss_sum)
  from inst[THEN conjunct2, THEN conjunct1] lc n(1)
  have tp: "length (target_positions (y_true demo_batch)) = 5" by simp
  from inst[THEN conjunct2, THEN conjunct2, THEN conjunct1] weighted_step_1 obtain tb s1 tp where
    d: "draw_batch weighted_env ((init_state weighted_env 0 0)\<lparr>global_step :=
          global_step (init_state weighted_env 0 0) + 1\<rparr>) = Inr (tb, s1)" and
    l: "sum_list (y_lens tb) \<noteq> 0 \<longrightarrow> last (windowed_losses weighted_state_1) =
          Val (token_loss_sum (nll weighted_env) tp (y_true tb) / real (sum_list (y_lens tb)))"
    by blast
  from d have "tb = demo_batch"
    by (simp add: draw_batch_def init_state_def weighted_env_fields)
  with l n(1) have w: "last (windowed_losses weighted_state_1) = Val (26 / 5)"
    by (simp add: weighted_token_loss_sum)
  from f sh demo_target_positions weighted_token_loss_sum lc n fl weighted_step_1 w
    weighted_eval_loop(1)
  show ?thesis by simp
qed

subsection \<open>A batch without valid target tokens\<close>

text \<open>
  Claim C2, as amended. For a batch whose target lengths sum to zero the division is not
  guarded: the summed loss is divided by zero, nothing is raised, and the loss is not a
  finite number: NaN when the summed cross entropy is zero, an infinity of its sign
  otherwise.
\<close>

theorem zero_token_batch_unguarded:
  assumes "sum_list (y_lens b) = 0" and "forward env training m b = Inr y_pred"
    and "same_shape y_pred (y_true b)"
  shows "\<exists>l. forward_loss env training m b = Inr l \<and> \<not> is_finite l \<and>
             l = (if cross_entropy_sum (nll env) y_pred (y_true b) = 0 then NaN
                  else if 0 < cross_entropy_sum (nll env) y_pred (y_true b) then PInf
                  else NInf)"
  using assms by (simp add: forward_loss_def criterion_same_shape)

theorem zero_token_batch_unguarded_witness:
  "sum_list (y_lens zero_token_batch) = 0 \<and>
   forward demo_env True 0 zero_token_batch = Inr [[(), (), ()]] \<and>
   same_shape [[(), (), ()]] (y_true zero_token_batch) \<and>
   cross_entropy_sum (nll demo_env) [[(), (), ()]] (y_true zero_token_batch) = 0 \<and>
   forward_loss demo_env True 0 zero_token_batch = Inr NaN"
proof -
  have z: "sum_list (y_lens zero_token_batch) = 0" by (simp add: zero_token_batch_def)
  have f: "forward demo_env True 0 zero_token_batch = Inr [[(), (), ()]]"
    by (simp add: demo_env_def zero_token_batch_def)
  have sh: "same_shape [[(), (), ()]] (y_true zero_token_batch)"
    by (simp add: same_shape_def zero_token_batch_def)
  have c: "cross_entropy_sum (nll demo_env) [[(), (), ()]] (y_true zero_token_batch) = 0"
    by (simp add: cross_entropy_sum_def zero_token_batch_def ignore_index_def)
  from zero_token_batch_unguarded[OF z f sh] c
  have "forward_loss demo_env True 0 zero_token_batch = Inr NaN" by simp
  with z f sh c show ?thesis by simp
qed

text \<open>
  Claim C2 as stated fails: on a batch whose targets are all padding, with target lengths
  zero, the training and the evaluation site both return NaN, the result of dividing zero
  by zero.
\<close>

theorem guarded_division_counterexample:
  "sum_list (y_lens zero_token_batch) = 0 \<and>
   forward_loss demo_env True 0 zero_token_batch = Inr NaN \<and>
   forward_loss demo_env False 0 zero_token_batch = Inr NaN \<and>
   \<not> is_finite NaN"
  by (simp add: zero_token_forward_loss) (simp add: zero_token_batch_def)

subsection \<open>The scheduler is never stepped past its schedule\<close>

text \<open>
  Claim C3. The number of \<open>scheduler.step()\<close> calls never exceeds the configured
  schedule length \<open>WARM_STEPS + COOL_STEPS\<close>, in any state a run goes through; a
  training step that succeeds with its (already incremented) step counter at or past that
  length leaves the scheduler and the number of calls as they were; and whatever
  \<open>scheduler.step()\<close> raises is dropped, the step ending as if it had raised nothing.
\<close>

theorem scheduler_never_past_total:
  "(run_steps env cfg n (init_state env m0 sch0) = Inr (s, brk) \<longrightarrow>
      sched_calls s \<le> total_steps cfg) \<and>
   (train_step env cfg t = Inr (t', brk') \<and> total_steps cfg \<le> global_step t + 1 \<longrightarrow>
      scheduler t' = scheduler t \<and> sched_calls t' = sched_calls t) \<and>
   train_step (env\<lparr>scheduler_step := \<lambda>sch. (fst (scheduler_step env sch), None)\<rparr>) cfg t
     = train_step env cfg t"
proof (intro conjI impI)
  assume "run_steps env cfg n (init_state env m0 sch0) = Inr (s, brk)"
  from sched_calls_run_steps[OF this] show "sched_calls s \<le> total_steps cfg"
    by (simp add: total_steps_def)
next
  assume a: "train_step env cfg t = Inr (t', brk') \<and> total_steps cfg \<le> global_step t + 1"
  then have past: "\<not> Suc (global_step t) < WARM_STEPS cfg + COOL_STEPS cfg"
    by (simp add: total_steps_def)
  from a have st: "train_step env cfg t = Inr (t', brk')" by simp
  show "scheduler t' = scheduler t" using st past by (rule train_step_scheduler_past)
  show "sched_calls t' = sched_calls t" using train_step_sched_calls[OF st] past by simp
next
  show "train_step (env\<lparr>scheduler_step := \<lambda>sch. (fst (scheduler_step env sch), None)\<rparr>) cfg t
     = train_step env cfg t" by (rule train_step_swallows)
qed

theorem scheduler_never_past_total_witness:
  "run_steps demo_env demo_config 4 (init_state demo_env 0 0) = Inr (demo_state_4, False) \<and>
   total_steps demo_config = 4 \<and> sched_calls demo_state_4 = 3 \<and>
   sched_calls demo_state_4 \<le> total_steps demo_config \<and>
   train_step demo_env demo_config demo_state_3 = Inr (demo_state_4, False) \<and>
   total_steps demo_config \<le> global_step demo_state_3 + 1 \<and>
   scheduler demo_state_4 = scheduler demo_state_3 \<and>
   sched_calls demo_state_4 = sched_calls demo_state_3 \<and>
   scheduler_step scheduler_error_env 0 = (0, Some RuntimeError) \<and>
   train_step (scheduler_error_env\<lparr>scheduler_step := \<lambda>sch. (sch, None)\<rparr>) demo_config
       (init_state scheduler_error_env 0 0)
     = train_step scheduler_error_env demo_config (init_state scheduler_error_env 0 0)"
proof -
  note inst = scheduler_never_past_total[of demo_env demo_config 4 0 0 demo_state_4 False
      demo_state_3 demo_state_4 False]
  have past: "total_steps demo_config \<le> global_step demo_state_3 + 1"
    by (simp add: demo_config_fields demo_global_steps)
  from inst[THEN conjunct1] demo_run_steps(3)
  have a: "sched_calls demo_state_4 \<le> total_steps demo_config" by simp
  from inst[THEN conjunct2, THEN conjunct1] demo_step_4 past
  have b: "scheduler demo_state_4 = scheduler demo_state_3 \<and>
      sched_calls demo_state_4 = sched_calls demo_state_3" by simp
  have c: "sched_calls demo_state_4 = 3"
    by (simp add: demo_state_4_def demo_state_3_def)
  have r1: "scheduler_step scheduler_error_env 0 = (0, Some RuntimeError)"
    by (simp add: scheduler_error_env_def)
  have r2: "(\<lambda>sch. (fst (scheduler_step scheduler_error_env sch), None :: pyexn option))
      = (\<lambda>sch. (sch, None))"
    by (simp add: scheduler_error_env_def)
  from scheduler_never_past_total[of scheduler_error_env demo_config 0 0 0
      "init_state scheduler_error_env 0 0" False "init_state scheduler_error_env 0 0",
      THEN conjunct2, THEN conjunct2]
  have d: "train_step (scheduler_error_env\<lparr>scheduler_step := \<lambda>sch. (sch, None)\<rparr>) demo_config
       (init_state scheduler_error_env 0 0)
     = train_step scheduler_error_env demo_config (init_state scheduler_error_env 0 0)"
    unfolding r2 .
  from a b c d r1 past demo_run_steps(3) demo_step_4 demo_config_fields(10)
  show ?thesis by simp
qed

subsection \<open>Exhaustion of the training iterator\<close>

text \<open>
  Claim C4. When \<open>next(train_iterator)\<close> raises \<open>StopIteration\<close> and the
  rebuilt iterator yields a batch, the draw succeeds with that batch, the epoch counter
  one higher and the rebuilt iterator advanced past it; the whole step does exactly what
  it would do from a state with the next epoch and a fresh iterator, so the exhaustion by
  itself ends nothing; and a step that succeeds increments the epoch by exactly one and
  the step counter by exactly one, as every other step does. (The loader is assumed to
  yield at least one batch per pass; with an empty loader the \<open>StopIteration\<close> of the
  second \<open>next\<close>, raised inside the handler, propagates: \<open>draw_batch_empty_loader\<close>.)
\<close>

theorem iterator_exhaustion_recovers:
  assumes "next_item (train_iterator s) = Inl StopIteration"
    and "next_item (train_dataloader env (epoch s + 1)) = Inr (b, rest)"
  shows "draw_batch env s = Inr (b, s\<lparr>epoch := epoch s + 1, train_iterator := rest\<rparr>) \<and>
         train_step env cfg s =
           train_step env cfg (s\<lparr>epoch := epoch s + 1,
                                  train_iterator := train_dataloader env (epoch s + 1)\<rparr>) \<and>
         (train_step env cfg s = Inr (s', brk) \<longrightarrow>
            epoch s' = epoch s + 1 \<and> train_iterator s' = rest \<and>
            global_step s' = global_step s + 1)"
proof (intro conjI impI)
  show "draw_batch env s = Inr (b, s\<lparr>epoch := epoch s + 1, train_iterator := rest\<rparr>)"
    using assms by (rule draw_batch_recovers)
  let ?g = "\<lambda>t. t\<lparr>global_step := global_step t + 1\<rparr>"
  let ?fresh = "s\<lparr>epoch := epoch s + 1, train_iterator := train_dataloader env (epoch s + 1)\<rparr>"
  have d1: "draw_batch env (?g s) =
      Inr (b, (?g s)\<lparr>epoch := epoch s + 1, train_iterator := rest\<rparr>)"
    using assms draw_batch_recovers[of "?g s" env b rest] by simp
  have d2: "draw_batch env (?g ?fresh) =
      Inr (b, (?g s)\<lparr>epoch := epoch s + 1, train_iterator := rest\<rparr>)"
    using assms(2) by (simp add: draw_batch_def)
  from d1 d2 show "train_step env cfg s = train_step env cfg ?fresh"
    by (rule train_step_after_draw)
  assume st: "train_step env cfg s = Inr (s', brk)"
  from train_step_epoch[OF st d1] show "epoch s' = epoch s + 1" "train_iterator s' = rest"
    by simp_all
  from train_step_global_step[OF st] show "global_step s' = global_step s + 1" by simp
qed

theorem iterator_exhaustion_recovers_witness:
  "run_steps demo_env demo_config 2 (init_state demo_env 0 0) = Inr (demo_state_2, False) \<and>
   global_step demo_state_2 = 2 \<and> epoch demo_state_2 = 0 \<and>
   next_item (train_iterator demo_state_2) = Inl StopIteration \<and>
   next_item (train_dataloader demo_env (epoch demo_state_2 + 1))
     = Inr (demo_batch, [Inr demo_batch]) \<and>
   draw_batch demo_env demo_state_2
     = Inr (demo_batch, demo_state_2\<lparr>epoch := 1, train_iterator := [Inr demo_batch]\<rparr>) \<and>
   train_step demo_env demo_config demo_state_2 = Inr (demo_state_3, False) \<and>
   epoch demo_state_3 = 1 \<and> global_step demo_state_3 = 3 \<and>
   train_iterator demo_state_3 = [Inr demo_batch]"
proof -
  have h1: "next_item (train_iterator demo_state_2) = Inl StopIteration"
    by (simp add: demo_state_2_def)
  have h2: "next_item (train_dataloader demo_env (epoch demo_state_2 + 1))
      = Inr (demo_batch, [Inr demo_batch])"
    by (simp add: demo_env_fields)
  have e2: "epoch demo_state_2 = 0" by (simp add: demo_state_2_def)
  note inst = iterator_exhaustion_recovers[OF h1 h2, of demo_config demo_state_3 False]
  from inst[THEN conjunct1] e2
  have a: "draw_batch demo_env demo_state_2
     = Inr (demo_batch, demo_state_2\<lparr>epoch := 1, train_iterator := [Inr demo_batch]\<rparr>)"
    by simp
  from inst[THEN conjunct2, THEN conjunct2] demo_step_3 e2
  have b: "epoch demo_state_3 = 1" "global_step demo_state_3 = 3"
    "train_iterator demo_state_3 = [Inr demo_batch]"
    by (simp_all add: demo_global_steps)
  from a b h1 h2 e2 demo_run_steps(1) demo_step_3 show ?thesis
    by (simp add: demo_global_steps)
qed

subsection \<open>Shapes of the collated batches\<close>

text \<open>
  Claim C5, as amended. With a positive batch size, every batch of a pass has the
  configured maximum length as its number of columns in each of the three padded fields,
  whatever the lengths of the sentences, and as many rows as it has examples: at least one
  and at most \<open>batch_size\<close>. Every batch but the last has exactly \<open>batch_size\<close>
  rows; the last has \<open>len(dataset) mod batch_size\<close> rows when that is not zero; when
  the batch size divides the number of samples, every batch has \<open>batch_size\<close> rows.
\<close>

theorem collated_batch_shapes:
  assumes "0 < batch_size" and "i < length (DataLoader batch_size max_seq_len samples)"
  shows "let bs = DataLoader batch_size max_seq_len samples; b = bs ! i; rows = batch_rows b in
           has_shape (x_in b) (rows, max_seq_len) \<and>
           has_shape (y_in b) (rows, max_seq_len) \<and>
           has_shape (y_true b) (rows, max_seq_len) \<and>
           length (x_lens b) = rows \<and> length (y_lens b) = rows \<and>
           0 < rows \<and> rows \<le> batch_size \<and>
           (Suc i < length bs \<longrightarrow> rows = batch_size) \<and>
           (Suc i = length bs \<and> length samples mod batch_size \<noteq> 0 \<longrightarrow>
              rows = length samples mod batch_size) \<and>
           (length samples mod batch_size = 0 \<longrightarrow> rows = batch_size)"
proof -
  let ?cs = "batch_sampler batch_size samples"
  let ?c = "?cs ! i"
  from assms(2) have i: "i < length ?cs" by (simp add: length_DataLoader)
  then have mem: "?c \<in> set ?cs" by simp
  have b: "DataLoader batch_size max_seq_len samples ! i = pad_to_seq_len max_seq_len ?c"
    using assms(2) by (rule DataLoader_nth)
  have rows: "batch_rows (pad_to_seq_len max_seq_len ?c) = length ?c"
    by (simp add: batch_rows_def pad_to_seq_len_shapes)
  have grp: "0 < length ?c \<and> length ?c \<le> batch_size"
    using mem by (rule batch_sampler_group)
  have full: "Suc i < length ?cs \<longrightarrow> length ?c = batch_size"
  proof
    assume "Suc i < length ?cs"
    then show "length ?c = batch_size" by (rule batch_sampler_full)
  qed
  have lst: "Suc i = length ?cs \<and> length samples mod batch_size \<noteq> 0 \<longrightarrow>
      length ?c = length samples mod batch_size"
  proof
    assume a: "Suc i = length ?cs \<and> length samples mod batch_size \<noteq> 0"
    then have ne: "?cs \<noteq> []" by auto
    from a have idx: "i = length ?cs - 1" by arith
    have "?cs ! i = ?cs ! (length ?cs - 1)" using idx by (rule arg_cong)
    also have "\<dots> = last ?cs" using ne by (rule last_conv_nth[symmetric])
    finally have c: "?c = last ?cs" .
    from a have "length samples mod batch_size \<noteq> 0" by blast
    with assms(1) have "length (last ?cs) = length samples mod batch_size"
      by (rule batch_sampler_last)
    then show "length ?c = length samples mod batch_size" by (simp only: c)
  qed
  have even: "length samples mod batch_size = 0 \<longrightarrow> length ?c = batch_size"
  proof
    assume "length samples mod batch_size = 0"
    then show "length ?c = batch_size" using mem by (rule batch_sampler_even)
  qed
  have shp: "has_shape (x_in (pad_to_seq_len max_seq_len ?c)) (length ?c, max_seq_len)"
    "has_shape (y_in (pad_to_seq_len max_seq_len ?c)) (length ?c, max_seq_len)"
    "has_shape (y_true (pad_to_seq_len max_seq_len ?c)) (length ?c, max_seq_len)"
    "length (x_lens (pad_to_seq_len max_seq_len ?c)) = length ?c"
    "length (y_lens (pad_to_seq_len max_seq_len ?c)) = length ?c"
    by (rule pad_to_seq_len_shapes)+
  show ?thesis
    unfolding Let_def b rows length_DataLoader
    by (intro conjI shp grp[THEN conjunct1] grp[THEN conjunct2] full lst even)
qed

theorem collated_batch_shapes_witness:
  "0 < (2::nat) \<and> 1 < length (DataLoader 2 3 demo_samples) \<and>
   length (DataLoader 2 3 demo_samples) = 2 \<and> length demo_samples mod 2 = 1 \<and>
   batch_rows (DataLoader 2 3 demo_samples ! 1) = 1 \<and>
   has_shape (x_in (DataLoader 2 3 demo_samples ! 1)) (1, 3) \<and>
   has_shape (y_in (DataLoader 2 3 demo_samples ! 1)) (1, 3) \<and>
   has_shape (y_true (DataLoader 2 3 demo_samples ! 1)) (1, 3)"
proof -
  have bs: "batch_sampler 2 demo_samples =
      [[([5, 6], [2, 7], [7, 3]), ([8], [2, 9, 4, 6], [9, 4, 6, 3])], [([5], [2], [3])]]"
    by (simp add: demo_samples_def batch_sampler.simps)
  have len: "length (DataLoader 2 3 demo_samples) = 2"
    by (simp add: DataLoader_def bs)
  have m: "length demo_samples mod 2 = 1" by (simp add: demo_samples_def)
  have h: "0 < (2::nat)" "1 < length (DataLoader 2 3 demo_samples)" by (simp_all add: len)
  from collated_batch_shapes[OF h] len m show ?thesis
    by (auto simp: Let_def)
qed

text \<open>
  Claim C5 as stated fails on the last batch of a pass: the ten-line corpus, loaded with
  the notebook's batch size 16 and maximum length 256, gives one batch of shape (10, 256),
  not (16, 256).
\<close>

theorem full_batch_shape_counterexample:
  "DataLoader (BATCH_SIZE notebook_config) (MAX_SEQ_LEN notebook_config) toy_corpus =
     [pad_to_seq_len 256 toy_corpus] \<and>
   has_shape (x_in (pad_to_seq_len 256 toy_corpus)) (10, 256) \<and>
   \<not> has_shape (x_in (pad_to_seq_len 256 toy_corpus))
       (BATCH_SIZE notebook_config, MAX_SEQ_LEN notebook_config)"
proof -
  have l: "length toy_corpus = 10" by (simp add: toy_corpus_def)
  then have ne: "toy_corpus \<noteq> []" by auto
  have "batch_sampler 16 toy_corpus = [toy_corpus]"
    using ne l by (simp add: batch_sampler_short)
  then have "DataLoader (BATCH_SIZE notebook_config) (MAX_SEQ_LEN notebook_config) toy_corpus =
     [pad_to_seq_len 256 toy_corpus]"
    by (simp add: DataLoader_def notebook_config_def)
  moreover have "has_shape (x_in (pad_to_seq_len 256 toy_corpus)) (10, 256)"
    using pad_to_seq_len_shapes(1)[of 256 toy_corpus] l by simp
  moreover have "\<not> has_shape (x_in (pad_to_seq_len 256 toy_corpus))
       (BATCH_SIZE notebook_config, MAX_SEQ_LEN notebook_config)"
    using l by (simp add: has_shape_def pad_to_seq_len_def notebook_config_def)
  ultimately show ?thesis by blast
qed

subsection \<open>The evaluation loss\<close>




subsection \<open>Checkpoint file names never collide\<close>

text \<open>
  Claim C7. A checkpoint file name is the fixed prefix ending in the vocabulary size, a
  dash, the step count in decimal padded with zeros to at least eight digits (the count
  can be read back from it), and \<open>.pt\<close>. Names for different step counts differ. In
  every state a run goes through, the files written are those of the multiples of
  \<open>EVAL_EVERY\<close> reached so far, and their names are pairwise distinct: no checkpoint
  overwrites another.
\<close>

theorem checkpoint_names_never_collide:
  "checkpoint_name v g =
     ''/mnt/data/checkpoints/translation_en_nl/checkpoint_v'' @ str_nat v @
     ''-'' @ format_08d g @ ''.pt'' \<and>
   8 \<le> length (format_08d g) \<and> str_val (format_08d g) = g \<and>
   (g \<noteq> g' \<longrightarrow> checkpoint_name v g \<noteq> checkpoint_name v g') \<and>
   (run_steps env cfg n (init_state env m0 sch0) = Inr (s, brk) \<longrightarrow>
      map fst (saved s) =
        map (checkpoint_name (VOCAB_SIZE cfg)) (checkpoint_steps cfg (global_step s)) \<and>
      distinct (map fst (saved s)))"
proof (intro conjI impI)
  show "checkpoint_name v g =
     ''/mnt/data/checkpoints/translation_en_nl/checkpoint_v'' @ str_nat v @
     ''-'' @ format_08d g @ ''.pt''" by (rule checkpoint_name_eq)
  show "8 \<le> length (format_08d g)" by (rule length_format_08d)
  show "str_val (format_08d g) = g" by (rule str_val_format_08d)
next
  assume "g \<noteq> g'"
  then show "checkpoint_name v g \<noteq> checkpoint_name v g'"
    using checkpoint_name_inj by blast
next
  assume rs: "run_steps env cfg n (init_state env m0 sch0) = Inr (s, brk)"
  from saved_names[OF saved_index_run_steps[OF rs]]
  show "map fst (saved s) =
        map (checkpoint_name (VOCAB_SIZE cfg)) (checkpoint_steps cfg (global_step s))" .
  from rs show "distinct (map fst (saved s))" by (rule saved_distinct_run_steps)
qed

theorem checkpoint_names_never_collide_witness:
  "run_steps demo_env demo_config 4 (init_state demo_env 0 0) = Inr (demo_state_4, False) \<and>
   map fst (saved demo_state_4) = [checkpoint_name 16000 2, checkpoint_name 16000 4] \<and>
   distinct (map fst (saved demo_state_4)) \<and>
   (25000::nat) \<noteq> 50000 \<and> checkpoint_name 16000 25000 \<noteq> checkpoint_name 16000 50000 \<and>
   checkpoint_name 16000 2 \<noteq> checkpoint_name 16000 4"
proof -
  note inst = checkpoint_names_never_collide[of 16000 25000 50000 demo_env demo_config 4 0 0
      demo_state_4 False]
  from inst have run: "run_steps demo_env demo_config 4 (init_state demo_env 0 0) =
        Inr (demo_state_4, False) \<longrightarrow>
      map fst (saved demo_state_4) =
        map (checkpoint_name (VOCAB_SIZE demo_config))
          (checkpoint_steps demo_config (global_step demo_state_4)) \<and>
      distinct (map fst (saved demo_state_4))"
    and ne: "(25000::nat) \<noteq> 50000 \<longrightarrow>
      checkpoint_name 16000 25000 \<noteq> checkpoint_name 16000 50000"
    by blast+
  have cs: "checkpoint_steps demo_config 4 = [2, 4]"
    by (simp add: checkpoint_steps_def demo_config_fields upt_rec)
  from run demo_run_steps(3)
  have r: "map fst (saved demo_state_4) =
        map (checkpoint_name (VOCAB_SIZE demo_config))
          (checkpoint_steps demo_config (global_step demo_state_4))"
    and d: "distinct (map fst (saved demo_state_4))" by blast+
  from r cs
  have a: "map fst (saved demo_state_4) = [checkpoint_name 16000 2, checkpoint_name 16000 4]"
    by (simp add: demo_global_steps demo_config_fields)
  from d have "distinct [checkpoint_name 16000 2, checkpoint_name 16000 4]"
    by (simp only: a)
  then have b: "checkpoint_name 16000 2 \<noteq> checkpoint_name 16000 4" by simp
  from ne have c: "checkpoint_name 16000 25000 \<noteq> checkpoint_name 16000 50000" by simp
  from a b c d demo_run_steps(3) show ?thesis by (intro conjI) simp_all
qed

subsection \<open>Exceptions in a training step\<close>

text \<open>
  Claim C8, as amended. In a training step, an exception other than iterator exhaustion
  that a fetch of the training batch raises (the first \<open>next\<close>, or the \<open>next\<close> on
  the rebuilt iterator), and every exception of the forward pass, of the criterion, of the
  optimizer update, of the test \<open>global_step % EVAL_EVERY\<close>, or of the evaluation (a
  validation fetch or forward pass, the sample decoding, the checkpoint write) ends the
  step with that exception, and an exception that ends a step ends the loop with it:
  nothing is retried and no state is returned.
  Every exception of \<open>scheduler.step()\<close>, whatever its kind, is dropped by the bare
  \<open>except\<close>: the step ends as if the call had raised nothing.
\<close>

theorem exceptions_propagate_except_scheduler:
  "(next_item (train_iterator s) = Inl e \<and> e \<noteq> StopIteration \<longrightarrow>
      train_step env cfg s = Inl e) \<and>
   (next_item (train_iterator s) = Inl StopIteration \<and>
    next_item (train_dataloader env (epoch s + 1)) = Inl e \<and> e \<noteq> StopIteration \<longrightarrow>
      train_step env cfg s = Inl e) \<and>
   (draw_batch env (s\<lparr>global_step := global_step s + 1\<rparr>) = Inr (b, s1) \<longrightarrow>
      (forward_loss env True (model s1) b = Inl e \<longrightarrow> train_step env cfg s = Inl e) \<and>
      (forward_loss env True (model s1) b = Inr l \<and>
       optimizer_update env (model s1) b l = Inl e \<longrightarrow> train_step env cfg s = Inl e) \<and>
      (forward_loss env True (model s1) b = Inr l \<and>
       optimizer_update env (model s1) b l = Inr m' \<and>
       EVAL_EVERY cfg \<noteq> 0 \<and> Suc (global_step s) mod EVAL_EVERY cfg = 0 \<and>
       evaluation env cfg (record_loss cfg l (scheduler_phase env cfg (s1\<lparr>model := m'\<rparr>))) l
         = Inl e \<longrightarrow> train_step env cfg s = Inl e) \<and>
      (forward_loss env True (model s1) b = Inr l \<and>
       optimizer_update env (model s1) b l = Inr m' \<and> EVAL_EVERY cfg = 0 \<longrightarrow>
         train_step env cfg s = Inl ZeroDivisionError)) \<and>
   (forward env training m b = Inl e \<longrightarrow> forward_loss env training m b = Inl e) \<and>
   (forward env training m b = Inr y_pred \<and> criterion (nll env) y_pred (y_true b) = Inl e \<longrightarrow>
      forward_loss env training m b = Inl e) \<and>
   (eval_loop env cfg (model t) 0 (valid_dataloader env) [] = Inl e \<longrightarrow>
      evaluation env cfg t l = Inl e) \<and>
   (eval_loop env cfg (model t) 0 (valid_dataloader env) [] = Inr ls \<and>
    infer_samples env (model t) = Some e \<longrightarrow> evaluation env cfg t l = Inl e) \<and>
   (eval_loop env cfg (model t) 0 (valid_dataloader env) [] = Inr ls \<and>
    infer_samples env (model t) = None \<and>
    torch_save env (checkpoint_name (VOCAB_SIZE cfg) (global_step t)) = Some e \<longrightarrow>
      evaluation env cfg t l = Inl e) \<and>
   (global_step s < MAX_STEPS cfg \<and> train_step env cfg s = Inl e \<longrightarrow>
      train_loop env cfg s = Inl e) \<and>
   train_step (env\<lparr>scheduler_step := \<lambda>sch. (fst (scheduler_step env sch), None)\<rparr>) cfg s
     = train_step env cfg s"
proof (intro conjI impI)
  assume "next_item (train_iterator s) = Inl e \<and> e \<noteq> StopIteration"
  then have "draw_batch env (s\<lparr>global_step := global_step s + 1\<rparr>) = Inl e"
    by (simp add: next_item_error_draw(1))
  then show "train_step env cfg s = Inl e" by (rule train_step_draw_error)
next
  assume "next_item (train_iterator s) = Inl StopIteration \<and>
    next_item (train_dataloader env (epoch s + 1)) = Inl e \<and> e \<noteq> StopIteration"
  then have "draw_batch env (s\<lparr>global_step := global_step s + 1\<rparr>) = Inl e"
    by (simp add: next_item_error_draw(2))
  then show "train_step env cfg s = Inl e" by (rule train_step_draw_error)
next
  assume d: "draw_batch env (s\<lparr>global_step := global_step s + 1\<rparr>) = Inr (b, s1)"
  {
    assume "forward_loss env True (model s1) b = Inl e"
    with d show "train_step env cfg s = Inl e" by (rule train_step_forward_error)
  }
  {
    assume "forward_loss env True (model s1) b = Inr l \<and>
       optimizer_update env (model s1) b l = Inl e"
    with d show "train_step env cfg s = Inl e" by (simp add: train_step_optimizer_error)
  }
  {
    assume "forward_loss env True (model s1) b = Inr l \<and>
       optimizer_update env (model s1) b l = Inr m' \<and>
       EVAL_EVERY cfg \<noteq> 0 \<and> Suc (global_step s) mod EVAL_EVERY cfg = 0 \<and>
       evaluation env cfg (record_loss cfg l (scheduler_phase env cfg (s1\<lparr>model := m'\<rparr>))) l
         = Inl e"
    with d show "train_step env cfg s = Inl e" by (simp add: train_step_evaluation_error)
  }
  {
    assume "forward_loss env True (model s1) b = Inr l \<and>
       optimizer_update env (model s1) b l = Inr m' \<and> EVAL_EVERY cfg = 0"
    with d show "train_step env cfg s = Inl ZeroDivisionError"
      by (simp add: train_step_def Let_def)
  }
next
  assume "forward env training m b = Inl e"
  then show "forward_loss env training m b = Inl e" by (rule forward_loss_forward_error)
next
  assume "forward env training m b = Inr y_pred \<and> criterion (nll env) y_pred (y_true b) = Inl e"
  then show "forward_loss env training m b = Inl e"
    by (simp add: forward_loss_criterion_error)
next
  assume "eval_loop env cfg (model t) 0 (valid_dataloader env) [] = Inl e"
  then show "evaluation env cfg t l = Inl e" by (rule evaluation_errors(1))
next
  assume "eval_loop env cfg (model t) 0 (valid_dataloader env) [] = Inr ls \<and>
    infer_samples env (model t) = Some e"
  then show "evaluation env cfg t l = Inl e" by (simp add: evaluation_errors(2))
next
  assume "eval_loop env cfg (model t) 0 (valid_dataloader env) [] = Inr ls \<and>
    infer_samples env (model t) = None \<and>
    torch_save env (checkpoint_name (VOCAB_SIZE cfg) (global_step t)) = Some e"
  then show "evaluation env cfg t l = Inl e" by (simp add: evaluation_errors(3))
next
  assume "global_step s < MAX_STEPS cfg \<and> train_step env cfg s = Inl e"
  then show "train_loop env cfg s = Inl e" by (simp add: train_loop_propagates)
next
  show "train_step (env\<lparr>scheduler_step := \<lambda>sch. (fst (scheduler_step env sch), None)\<rparr>) cfg s
     = train_step env cfg s" by (rule train_step_swallows)
qed

theorem exceptions_propagate_except_scheduler_witness:
  "train_step demo_env step_config fetch_error_state = Inl OSError \<and>
   train_loop demo_env step_config fetch_error_state = Inl OSError \<and>
   train_step rebuilt_error_env step_config (init_state rebuilt_error_env 0 0) = Inl OSError \<and>
   train_step forward_error_env step_config (init_state forward_error_env 0 0) = Inl RuntimeError \<and>
   criterion (nll shape_error_env) [[()]] (y_true demo_batch) = Inl ValueError \<and>
   train_step shape_error_env step_config (init_state shape_error_env 0 0) = Inl ValueError \<and>
   criterion (nll sequence_error_env) [[(), ()], [(), ()]] (y_true demo_batch)
     = Inl RuntimeError \<and>
   train_step sequence_error_env step_config (init_state sequence_error_env 0 0)
     = Inl RuntimeError \<and>
   train_step optimizer_error_env step_config (init_state optimizer_error_env 0 0)
     = Inl RuntimeError \<and>
   evaluation valid_fetch_error_env step_config (init_state valid_fetch_error_env 0 0) (Val 1)
     = Inl OSError \<and>
   evaluation infer_error_env step_config (init_state infer_error_env 0 0) (Val 1)
     = Inl RuntimeError \<and>
   evaluation save_error_env step_config (init_state save_error_env 0 0) (Val 1) = Inl OSError \<and>
   train_step save_error_env step_config (init_state save_error_env 0 0) = Inl OSError \<and>
   train_step demo_env (step_config\<lparr>EVAL_EVERY := 0\<rparr>) (init_state demo_env 0 0)
     = Inl ZeroDivisionError \<and>
   scheduler_step scheduler_error_env 0 = (0, Some RuntimeError) \<and>
   train_step scheduler_error_env step_config (init_state scheduler_error_env 0 0)
     = train_step (scheduler_error_env\<lparr>scheduler_step := \<lambda>sch. (sch, None)\<rparr>) step_config
         (init_state scheduler_error_env 0 0)"
proof -
  note T = exceptions_propagate_except_scheduler
  note first_fetch = T[THEN conjunct1, THEN mp]
  note second_fetch = T[THEN conjunct2, THEN conjunct1, THEN mp]
  note after_draw = T[THEN conjunct2, THEN conjunct2, THEN conjunct1, THEN mp]
  note rest = T[THEN conjunct2, THEN conjunct2, THEN conjunct2]
  note forward_raises = rest[THEN conjunct1, THEN mp]
  note criterion_raises = rest[THEN conjunct2, THEN conjunct1, THEN mp]
  note eval_raises = rest[THEN conjunct2, THEN conjunct2, THEN conjunct1, THEN mp]
  note infer_raises = rest[THEN conjunct2, THEN conjunct2, THEN conjunct2, THEN conjunct1, THEN mp]
  note save_raises = rest[THEN conjunct2, THEN conjunct2, THEN conjunct2, THEN conjunct2,
      THEN conjunct1, THEN mp]
  note loop_raises = rest[THEN conjunct2, THEN conjunct2, THEN conjunct2, THEN conjunct2,
      THEN conjunct2, THEN conjunct1, THEN mp]
  note swallowed = rest[THEN conjunct2, THEN conjunct2, THEN conjunct2, THEN conjunct2,
      THEN conjunct2, THEN conjunct2]
  have es: "EVAL_STEPS step_config = 1" by (simp add: step_config_def)
  txt \<open>A fetch that raises.\<close>
  have f1: "next_item (train_iterator fetch_error_state) = Inl OSError" "OSError \<noteq> StopIteration"
    by (simp_all add: fetch_error_state_def)
  have f2: "global_step fetch_error_state < MAX_STEPS step_config"
    by (simp add: fetch_error_state_def init_state_def step_config_def notebook_config_def)
  have w1: "train_step demo_env step_config fetch_error_state = Inl OSError"
    by (rule first_fetch[OF conjI, OF f1])
  have w1': "train_loop demo_env step_config fetch_error_state = Inl OSError"
    by (rule loop_raises[OF conjI, OF f2 w1])
  txt \<open>A fetch from the rebuilt iterator that raises.\<close>
  let ?sr = "init_state rebuilt_error_env 0 0"
  have r1: "next_item (train_iterator ?sr) = Inl StopIteration"
    "next_item (train_dataloader rebuilt_error_env (epoch ?sr + 1)) = Inl OSError"
    by (simp_all add: init_state_def rebuilt_error_env_def)
  have w1b: "train_step rebuilt_error_env step_config ?sr = Inl OSError"
    by (rule second_fetch[OF conjI, OF r1(1) conjI, OF r1(2) f1(2)])
  txt \<open>A forward pass that raises.\<close>
  let ?sf = "init_state forward_error_env 0 0"
  let ?sf1 = "?sf\<lparr>global_step := 1, train_iterator := [Inr demo_batch]\<rparr>"
  have df: "draw_batch forward_error_env (?sf\<lparr>global_step := global_step ?sf + 1\<rparr>)
      = Inr (demo_batch, ?sf1)"
    by (rule demo_like_draw) (simp add: forward_error_env_def)
  have ff: "forward forward_error_env True (model ?sf1) demo_batch = Inl RuntimeError"
    by (simp add: forward_error_env_def)
  have fl: "forward_loss forward_error_env True (model ?sf1) demo_batch = Inl RuntimeError"
    by (rule forward_raises[OF ff])
  have w2: "train_step forward_error_env step_config ?sf = Inl RuntimeError"
    by (rule after_draw[OF df, THEN conjunct1, THEN mp, OF fl])
  txt \<open>A prediction tensor with the wrong number of rows.\<close>
  let ?sh = "init_state shape_error_env 0 0"
  let ?sh1 = "?sh\<lparr>global_step := 1, train_iterator := [Inr demo_batch]\<rparr>"
  have dh: "draw_batch shape_error_env (?sh\<lparr>global_step := global_step ?sh + 1\<rparr>)
      = Inr (demo_batch, ?sh1)"
    by (rule demo_like_draw) (simp add: shape_error_env_def)
  have fh: "forward shape_error_env True (model ?sh1) demo_batch = Inr [[()]]"
    by (simp add: shape_error_env_def)
  have ch: "criterion (nll shape_error_env) [[()]] (y_true demo_batch) = Inl ValueError"
    by (simp add: criterion_def demo_batch_def)
  have lh: "forward_loss shape_error_env True (model ?sh1) demo_batch = Inl ValueError"
    by (rule criterion_raises[OF conjI, OF fh ch])
  have w2s: "train_step shape_error_env step_config ?sh = Inl ValueError"
    by (rule after_draw[OF dh, THEN conjunct1, THEN mp, OF lh])
  txt \<open>A prediction tensor with the wrong number of positions.\<close>
  let ?sq = "init_state sequence_error_env 0 0"
  let ?sq1 = "?sq\<lparr>global_step := 1, train_iterator := [Inr demo_batch]\<rparr>"
  have dq: "draw_batch sequence_error_env (?sq\<lparr>global_step := global_step ?sq + 1\<rparr>)
      = Inr (demo_batch, ?sq1)"
    by (rule demo_like_draw) (simp add: sequence_error_env_def)
  have fq: "forward sequence_error_env True (model ?sq1) demo_batch = Inr [[(), ()], [(), ()]]"
    by (simp add: sequence_error_env_def)
  have cq: "criterion (nll sequence_error_env) [[(), ()], [(), ()]] (y_true demo_batch)
      = Inl RuntimeError"
    by (simp add: criterion_def same_shape_def demo_batch_def)
  have lq: "forward_loss sequence_error_env True (model ?sq1) demo_batch = Inl RuntimeError"
    by (rule criterion_raises[OF conjI, OF fq cq])
  have w2q: "train_step sequence_error_env step_config ?sq = Inl RuntimeError"
    by (rule after_draw[OF dq, THEN conjunct1, THEN mp, OF lq])
  txt \<open>An optimizer update that raises.\<close>
  let ?so = "init_state optimizer_error_env 0 0"
  let ?so1 = "?so\<lparr>global_step := 1, train_iterator := [Inr demo_batch]\<rparr>"
  have do: "draw_batch optimizer_error_env (?so\<lparr>global_step := global_step ?so + 1\<rparr>)
      = Inr (demo_batch, ?so1)"
    by (rule demo_like_draw) (simp add: optimizer_error_env_def)
  have fo: "forward_loss optimizer_error_env True (model ?so1) demo_batch = Inr (Val 1)"
    by (rule demo_like_forward_loss) (simp_all add: optimizer_error_env_def)
  have oo: "optimizer_update optimizer_error_env (model ?so1) demo_batch (Val 1)
      = Inl RuntimeError"
    by (simp add: optimizer_error_env_def)
  have w3: "train_step optimizer_error_env step_config ?so = Inl RuntimeError"
    by (rule after_draw[OF do, THEN conjunct2, THEN conjunct1, THEN mp, OF conjI, OF fo oo])
  txt \<open>A validation fetch that raises.\<close>
  let ?sv = "init_state valid_fetch_error_env 0 0"
  have fv: "forward_loss valid_fetch_error_env False m demo_batch = Inr (Val 1)" for m
    by (rule demo_like_forward_loss) (simp_all add: valid_fetch_error_env_def)
  have ev: "eval_loop valid_fetch_error_env step_config (model ?sv) 0
      (valid_dataloader valid_fetch_error_env) [] = Inl OSError"
    by (simp add: valid_fetch_error_env_def fv[unfolded valid_fetch_error_env_def] es)
  have w4: "evaluation valid_fetch_error_env step_config ?sv (Val 1) = Inl OSError"
    by (rule eval_raises[OF ev])
  txt \<open>Sample decoding that raises.\<close>
  let ?si = "init_state infer_error_env 0 0"
  have ei: "eval_loop infer_error_env step_config (model ?si) 0
      (valid_dataloader infer_error_env) [] = Inr [Val 1, Val 1]"
    by (rule demo_like_eval_loop) (simp_all add: infer_error_env_def es)
  have ii: "infer_samples infer_error_env (model ?si) = Some RuntimeError"
    by (simp add: infer_error_env_def)
  have w5: "evaluation infer_error_env step_config ?si (Val 1) = Inl RuntimeError"
    by (rule infer_raises[OF conjI, OF ei ii])
  txt \<open>A checkpoint write that raises.\<close>
  let ?ss = "init_state save_error_env 0 0"
  have el: "eval_loop save_error_env step_config m 0 (valid_dataloader save_error_env) []
      = Inr [Val 1, Val 1]" for m
    by (rule demo_like_eval_loop) (simp_all add: save_error_env_def es)
  have sv: "torch_save save_error_env name = Some OSError"
    "infer_samples save_error_env m = None" for name m
    by (simp_all add: save_error_env_def demo_env_def)
  have w6: "evaluation save_error_env step_config ?ss (Val 1) = Inl OSError"
    by (rule save_raises[OF conjI, OF el conjI, OF sv(2) sv(1)])
  let ?ss1 = "?ss\<lparr>global_step := 1, train_iterator := [Inr demo_batch]\<rparr>"
  let ?ss3 = "record_loss step_config (Val 1)
      (scheduler_phase save_error_env step_config (?ss1\<lparr>model := Suc 0\<rparr>))"
  have ds: "draw_batch save_error_env (?ss\<lparr>global_step := global_step ?ss + 1\<rparr>)
      = Inr (demo_batch, ?ss1)"
    by (rule demo_like_draw) (simp add: save_error_env_def)
  have fs: "forward_loss save_error_env True (model ?ss1) demo_batch = Inr (Val 1)"
    by (rule demo_like_forward_loss) (simp_all add: save_error_env_def)
  have os: "optimizer_update save_error_env (model ?ss1) demo_batch (Val 1) = Inr (Suc 0)"
    by (simp add: save_error_env_def demo_env_def init_state_def)
  have e3: "evaluation save_error_env step_config ?ss3 (Val 1) = Inl OSError"
    by (rule save_raises[OF conjI, OF el conjI, OF sv(2) sv(1)])
  have c1: "EVAL_EVERY step_config \<noteq> 0" "Suc (global_step ?ss) mod EVAL_EVERY step_config = 0"
    by (simp_all add: step_config_def)
  have w7: "train_step save_error_env step_config ?ss = Inl OSError"
  proof (rule after_draw[OF ds, THEN conjunct2, THEN conjunct2, THEN conjunct1, THEN mp])
    show "forward_loss save_error_env True (model ?ss1) demo_batch = Inr (Val 1) \<and>
      optimizer_update save_error_env (model ?ss1) demo_batch (Val 1) = Inr (Suc 0) \<and>
      EVAL_EVERY step_config \<noteq> 0 \<and> Suc (global_step ?ss) mod EVAL_EVERY step_config = 0 \<and>
      evaluation save_error_env step_config ?ss3 (Val 1) = Inl OSError"
      using fs os c1 e3 by (intro conjI)
  qed
  txt \<open>An evaluation interval of zero.\<close>
  let ?sz = "init_state demo_env 0 0"
  let ?sz1 = "?sz\<lparr>global_step := 1, train_iterator := [Inr demo_batch]\<rparr>"
  have dz: "draw_batch demo_env (?sz\<lparr>global_step := global_step ?sz + 1\<rparr>)
      = Inr (demo_batch, ?sz1)"
    by (rule demo_like_draw) simp
  have oz: "optimizer_update demo_env (model ?sz1) demo_batch (Val 1) = Inr (Suc 0)"
    by (simp add: demo_env_def init_state_def)
  have w9: "train_step demo_env (step_config\<lparr>EVAL_EVERY := 0\<rparr>) ?sz = Inl ZeroDivisionError"
  proof (rule after_draw[OF dz, THEN conjunct2, THEN conjunct2, THEN conjunct2, THEN mp])
    show "forward_loss demo_env True (model ?sz1) demo_batch = Inr (Val 1) \<and>
      optimizer_update demo_env (model ?sz1) demo_batch (Val 1) = Inr (Suc 0) \<and>
      EVAL_EVERY (step_config\<lparr>EVAL_EVERY := 0\<rparr>) = 0"
      using demo_forward_loss[of True "model ?sz1"] oz by simp
  qed
  txt \<open>A scheduler step that raises.\<close>
  have s1: "scheduler_step scheduler_error_env 0 = (0, Some RuntimeError)"
    by (simp add: scheduler_error_env_def)
  have s2: "(\<lambda>sch. (fst (scheduler_step scheduler_error_env sch), None :: pyexn option))
      = (\<lambda>sch. (sch, None))"
    by (simp add: scheduler_error_env_def)
  have "train_step (scheduler_error_env\<lparr>scheduler_step :=
        \<lambda>sch. (fst (scheduler_step scheduler_error_env sch), None)\<rparr>) step_config
        (init_state scheduler_error_env 0 0)
      = train_step scheduler_error_env step_config (init_state scheduler_error_env 0 0)"
    by (rule swallowed)
  then have w8: "train_step scheduler_error_env step_config (init_state scheduler_error_env 0 0)
     = train_step (scheduler_error_env\<lparr>scheduler_step := \<lambda>sch. (sch, None)\<rparr>) step_config
         (init_state scheduler_error_env 0 0)"
    unfolding s2 by simp
  from w1 w1' w1b w2 ch w2s cq w2q w3 w4 w5 w6 w7 w9 s1 w8 show ?thesis by (intro conjI)
qed

text \<open>
  Claim C8 as stated fails: with the notebook's configuration, a \<open>RuntimeError\<close> raised
  by \<open>scheduler.step()\<close> at the first step, well inside the schedule of 200000 steps, is
  neither iterator exhaustion nor a step past the horizon, and yet the step and the run end
  without an exception.
\<close>

theorem swallowed_exception_counterexample:
  "scheduler_step scheduler_error_env 0 = (0, Some RuntimeError) \<and>
   RuntimeError \<noteq> StopIteration \<and>
   global_step (init_state scheduler_error_env 0 0) + 1 < total_steps notebook_config \<and>
   \<not> isl (train_step scheduler_error_env notebook_config (init_state scheduler_error_env 0 0)) \<and>
   \<not> isl (train_loop scheduler_error_env notebook_config (init_state scheduler_error_env 0 0))"
proof -
  have ok: "raises_nothing scheduler_error_env"
    unfolding scheduler_error_env_def
    by (simp add: raises_nothing_scheduler demo_env_raises_nothing)
  have ev: "EVAL_EVERY notebook_config \<noteq> 0"
    by (simp add: notebook_config_def)
  note it = init_state_fetches_ok[OF ok, of 0 0]
  from train_step_ok[OF ok it ev] have
    "\<not> isl (train_step scheduler_error_env notebook_config (init_state scheduler_error_env 0 0))"
    by auto
  moreover from train_loop_ok[OF ok ev it] have
    "\<not> isl (train_loop scheduler_error_env notebook_config (init_state scheduler_error_env 0 0))"
    by auto
  moreover have "scheduler_step scheduler_error_env 0 = (0, Some RuntimeError)"
    by (simp add: scheduler_error_env_def)
  moreover have "global_step (init_state scheduler_error_env 0 0) + 1 < total_steps notebook_config"
    by (simp add: init_state_def total_steps_def notebook_config_def)
  ultimately show ?thesis by simp
qed

subsection \<open>The end-to-end scenario\<close>

text \<open>
  Claim C9. With a training corpus of ten lines (\<open>corpus\<close>, in the order the
  shuffling sampler yields it in the first pass), \<open>MAX_STEPS = 2\<close>,
  \<open>EVAL_EVERY = 1\<close> and the demo flag set, as the notebook sets it, a run in which
  nothing raises terminates after its first step, having written exactly one checkpoint
  file (the one of step 1) and printed exactly one evaluation loss.
\<close>

theorem toy_run_one_checkpoint:
  assumes "MAX_STEPS cfg = 2" "EVAL_EVERY cfg = 1" "DEMO_JUST_ONE_ITRE cfg"
    and "0 < BATCH_SIZE cfg" "length corpus = 10"
    and "train_dataloader env 0 = map Inr (DataLoader (BATCH_SIZE cfg) (MAX_SEQ_LEN cfg) corpus)"
    and "fetches_ok (valid_dataloader env)" "calls_ok env"
  shows "\<exists>s. train_loop env cfg (init_state env m0 sch0) = Inr s \<and> global_step s = 1 \<and>
             map fst (saved s) = [checkpoint_name (VOCAB_SIZE cfg) 1] \<and>
             length (saved s) = 1 \<and>
             length (filter is_eval_loss (stdout s)) = 1"
proof -
  let ?s0 = "init_state env m0 sch0"
  from assms(5) have ne: "corpus \<noteq> []" by auto
  from batch_sampler_Cons[OF assms(4) ne] obtain c cs where
    "batch_sampler (BATCH_SIZE cfg) corpus = c # cs" by blast
  with assms(6) have it0: "train_iterator (?s0\<lparr>global_step := global_step ?s0 + 1\<rparr>)
      = Inr (pad_to_seq_len (MAX_SEQ_LEN cfg) c) # map Inr (map (pad_to_seq_len (MAX_SEQ_LEN cfg)) cs)"
    by (simp add: init_state_def DataLoader_def)
  then obtain b s1 where
    d: "draw_batch env (?s0\<lparr>global_step := global_step ?s0 + 1\<rparr>) = Inr (b, s1)"
    by (simp add: draw_batch_def)
  have ev: "EVAL_EVERY cfg \<noteq> 0" using assms(2) by simp
  from train_step_ok_drawn[OF assms(8) assms(7) ev d] assms(2,3) obtain s where
    st: "train_step env cfg ?s0 = Inr (s, True)" by auto
  have g0: "global_step ?s0 = 0" by (simp add: init_state_def)
  have tl: "train_loop env cfg ?s0 = Inr s"
    using st assms(1) g0 by (subst train_loop.simps) simp
  have g: "global_step s = 1" using train_step_global_step[OF st] g0 by simp
  from train_loop_run_steps[OF tl] obtain brk where
    rs: "run_steps env cfg (MAX_STEPS cfg - global_step ?s0) ?s0 = Inr (s, brk)" by blast
  have cs: "checkpoint_steps cfg 1 = [1]"
    by (simp add: checkpoint_steps_def assms(2))
  from saved_names[OF saved_index_run_steps[OF rs]] g cs
  have names: "map fst (saved s) = [checkpoint_name (VOCAB_SIZE cfg) 1]" by simp
  then have "length (map fst (saved s)) = 1" by simp
  then have len: "length (saved s) = 1" by simp
  from eval_printouts_run_steps[OF rs] len
  have "length (filter is_eval_loss (stdout s)) = 1" by simp
  with tl g names len show ?thesis by (intro exI[of _ s]) simp
qed

theorem toy_run_one_checkpoint_witness:
  "MAX_STEPS toy_config = 2 \<and> EVAL_EVERY toy_config = 1 \<and> length toy_corpus = 10 \<and>
   (\<exists>s. train_loop toy_env toy_config (init_state toy_env 0 0) = Inr s \<and> global_step s = 1 \<and>
        map fst (saved s) = [checkpoint_name 16000 1] \<and>
        length (saved s) = 1 \<and>
        length (filter is_eval_loss (stdout s)) = 1)"
proof -
  have c: "MAX_STEPS toy_config = 2" "EVAL_EVERY toy_config = 1" "DEMO_JUST_ONE_ITRE toy_config"
    "0 < BATCH_SIZE toy_config" "BATCH_SIZE toy_config = 16" "MAX_SEQ_LEN toy_config = 256"
    "VOCAB_SIZE toy_config = 16000"
    by (simp_all add: toy_config_def notebook_config_def)
  have l: "length toy_corpus = 10" by (simp add: toy_corpus_def)
  have t: "train_dataloader toy_env 0 =
      map Inr (DataLoader (BATCH_SIZE toy_config) (MAX_SEQ_LEN toy_config) toy_corpus)"
    by (simp add: toy_env_def c)
  have v: "fetches_ok (valid_dataloader toy_env)"
    by (simp add: toy_env_def fetches_ok_map_Inr)
  have k: "calls_ok toy_env"
    by (simp add: toy_env_def demo_env_def calls_ok_def same_shape_map)
  from toy_run_one_checkpoint[OF c(1,2,3,4) l t v k, of 0 0] c l show ?thesis by simp
qed

subsection \<open>The number of scheduler steps\<close>

text \<open>
  Claim C10. A training step calls \<open>scheduler.step()\<close> exactly when the incremented
  step counter is below \<open>WARM_STEPS + COOL_STEPS\<close>. So after any number of steps the
  number of calls is the smaller of the step counter and \<open>total_steps - 1\<close>: one
  short of the schedule length, also at the end of a run whose budget \<open>MAX_STEPS\<close>
  equals the schedule length.
\<close>

theorem scheduler_step_count:
  "(train_step env cfg t = Inr (t', brk') \<longrightarrow>
      sched_calls t' = (if global_step t' < WARM_STEPS cfg + COOL_STEPS cfg
                        then sched_calls t + 1 else sched_calls t)) \<and>
   (run_steps env cfg n (init_state env m0 sch0) = Inr (s, brk) \<longrightarrow>
      sched_calls s = min (global_step s) (total_steps cfg - 1) \<and>
      (0 < total_steps cfg \<longrightarrow> sched_calls s + 1 \<le> total_steps cfg)) \<and>
   (train_loop env cfg (init_state env m0 sch0) = Inr s' \<and> MAX_STEPS cfg = total_steps cfg \<and>
      0 < total_steps cfg \<longrightarrow> sched_calls s' < total_steps cfg)"
proof (intro conjI impI)
  assume st: "train_step env cfg t = Inr (t', brk')"
  from train_step_sched_calls[OF st] train_step_global_step[OF st]
  show "sched_calls t' = (if global_step t' < WARM_STEPS cfg + COOL_STEPS cfg
                        then sched_calls t + 1 else sched_calls t)" by simp
next
  assume rs: "run_steps env cfg n (init_state env m0 sch0) = Inr (s, brk)"
  from sched_calls_run_steps[OF rs]
  show "sched_calls s = min (global_step s) (total_steps cfg - 1)"
    by (simp add: total_steps_def)
  assume "0 < total_steps cfg"
  with sched_calls_run_steps[OF rs] show "sched_calls s + 1 \<le> total_steps cfg"
    unfolding total_steps_def by arith
next
  assume a: "train_loop env cfg (init_state env m0 sch0) = Inr s' \<and>
     MAX_STEPS cfg = total_steps cfg \<and> 0 < total_steps cfg"
  then obtain brk where
    "run_steps env cfg (MAX_STEPS cfg - global_step (init_state env m0 sch0))
       (init_state env m0 sch0) = Inr (s', brk)"
    using train_loop_run_steps by blast
  from sched_calls_run_steps[OF this] a show "sched_calls s' < total_steps cfg"
    unfolding total_steps_def by arith
qed

theorem scheduler_step_count_witness:
  "train_step demo_env demo_config (init_state demo_env 0 0) = Inr (demo_state_1, False) \<and>
   sched_calls demo_state_1 = 1 \<and>
   train_step demo_env demo_config demo_state_3 = Inr (demo_state_4, False) \<and>
   sched_calls demo_state_4 = sched_calls demo_state_3 \<and>
   run_steps demo_env demo_config 4 (init_state demo_env 0 0) = Inr (demo_state_4, False) \<and>
   train_loop demo_env demo_config (init_state demo_env 0 0) = Inr demo_state_4 \<and>
   MAX_STEPS demo_config = total_steps demo_config \<and> total_steps demo_config = 4 \<and>
   global_step demo_state_4 = 4 \<and> sched_calls demo_state_4 = 3 \<and>
   sched_calls demo_state_4 < total_steps demo_config"
proof -
  note i1 = scheduler_step_count[of demo_env demo_config "init_state demo_env 0 0"
      demo_state_1 False 4 0 0 demo_state_4 False demo_state_4]
  note i2 = scheduler_step_count[of demo_env demo_config demo_state_3
      demo_state_4 False 4 0 0 demo_state_4 False demo_state_4]
  from i1[THEN conjunct1] demo_step_1
  have a: "sched_calls demo_state_1 = 1"
    by (simp add: demo_global_steps demo_config_fields init_state_def)
  from i2[THEN conjunct1] demo_step_4
  have b: "sched_calls demo_state_4 = sched_calls demo_state_3"
    by (simp add: demo_global_steps demo_config_fields)
  from i1[THEN conjunct2, THEN conjunct1] demo_run_steps(3)
  have c: "sched_calls demo_state_4 = 3"
    by (simp add: demo_global_steps demo_config_fields)
  from i1[THEN conjunct2, THEN conjunct2] demo_train_loop
  have d: "sched_calls demo_state_4 < total_steps demo_config"
    by (simp add: demo_config_fields)
  from a b c d demo_step_1 demo_step_4 demo_run_steps(3) demo_train_loop
  show ?thesis by (simp add: demo_config_fields demo_global_steps)
qed

end
